theory Spec2Isabelle
  imports Main "HOL-Library.Word" "HOL-Library.Sublist" "HOL-Library.Multiset"
begin

unbundle bit_operations_syntax

section \<open>Common data: errors, attributes, dynamic values\<close>

type_synonym byte = "8 word"
type_synonym uint64 = "64 word"

text \<open>
  Modelled from the spec: the package \<open>errors\<close> is not among the sources. Its constructors
  (\<open>errors.Internal\<close>, \<open>errors.InvalidRequest\<close>, \<open>errors.InvalidValue\<close>) build an error of
  the kind they are named after; the kinds are those of the table in section 7 of the
  specification. The second component is the message (the format string of the call).
\<close>

datatype error_kind =
    InvalidSyntax | InvalidValue | InvalidPath | InvalidRequest | NoTarget
  | MutabilityViolation | Uniqueness | PreConditionFailed | IncompatibleOperation | Internal

datatype error = Error error_kind string

fun kind :: "error \<Rightarrow> error_kind" where
  "kind (Error k msg) = k"

text \<open>
  A Go panic carries a value: a string (\<open>panic("stack is empty")\<close>), an error
  (\<open>panic(errors.Internal(...))\<close>) or a runtime error (an index out of range, a failed
  type assertion).
\<close>

datatype panic = PanicString string | PanicError error | IndexOutOfRange | TypeAssertion

text \<open>A call returns normally, returns a non-nil error, or panics.\<close>

datatype 'a outcome = Ok 'a | Err error | Panic panic

datatype attr_type =
    TypeString | TypeInteger | TypeDecimal | TypeBoolean
  | TypeReference | TypeDateTime | TypeBinary | TypeComplex

datatype mutability = MutabilityReadOnly | MutabilityReadWrite | MutabilityImmutable | MutabilityWriteOnly

datatype returned = ReturnedAlways | ReturnedDefault | ReturnedRequest | ReturnedNever

text \<open>
  \<open>core.Attribute\<close>, with the accessors the sources call: \<open>Name()\<close>, \<open>ID()\<close>, \<open>Type()\<close>,
  \<open>MultiValued()\<close>, \<open>Mutability()\<close> and \<open>Returned()\<close>.
\<close>

record attribute =
  Name :: string
  ID :: string
  Type :: attr_type
  MultiValued :: bool
  Mutability :: mutability
  Returned :: returned

text \<open>
  A value of Go's \<open>interface{}\<close>: nil, a \<open>[]interface{}\<close>, an \<open>int\<close>, or any other value,
  which the code below only hands on.
\<close>

datatype 'v go_value = GoNil | GoSlice "'v go_value list" | GoInt int | GoOther 'v

section \<open>The multi-valued property (pkg/core/prop/multi.go)\<close>

text \<open>
  The elements of a multi-valued property are values of the interface \<open>core.Property\<close>;
  their concrete types (string, complex, ...) are not among the sources. The interface is a
  record of the methods that \<open>multi.go\<close> calls on an element, and of the factories
  \<open>NewString\<close>, ..., \<open>NewComplex\<close> (selected by the attribute's type) it builds one with.
  \<open>Replace\<close> mutates its receiver: it returns normally (the replaced element), returns an
  error, or panics, leaving the receiver in some state.
\<close>

datatype 'p replaced = Replaced 'p | ReplaceFailed error | ReplacePanicked panic 'p

record ('p, 'v) property_ops =
  new_property :: "attr_type \<Rightarrow> attribute \<Rightarrow> 'p"
  p_Replace :: "'p \<Rightarrow> 'v go_value \<Rightarrow> 'p replaced"
  p_Matches :: "'p \<Rightarrow> 'p \<Rightarrow> bool"
  p_IsUnassigned :: "'p \<Rightarrow> bool"
  p_Hash :: "'p \<Rightarrow> uint64"

text \<open>
  \<open>multiValuedProperty\<close>. The fields \<open>parent\<close> and \<open>subscribers\<close> are read by none of the
  functions below and are left out.
\<close>

record 'p multiValuedProperty =
  attr :: attribute
  elements :: "'p list"
  touched :: bool

subsection \<open>Hash\<close>

text \<open>FNV-1a, 64 bit (Go's \<open>hash/fnv\<close>): \<open>New64a\<close>, \<open>Write\<close> and \<open>Sum64\<close>.\<close>

definition offset64 :: uint64 where
  "offset64 = 14695981039346656037"

definition prime64 :: uint64 where
  "prime64 = 1099511628211"

definition fnv_Write :: "uint64 \<Rightarrow> byte list \<Rightarrow> uint64" where
  "fnv_Write h b = foldl (\<lambda>hash c. (hash XOR ucast c) * prime64) h b"

text \<open>\<open>binary.LittleEndian.PutUint64\<close>: the eight bytes of a word, lowest first.\<close>

definition PutUint64 :: "uint64 \<Rightarrow> byte list" where
  "PutUint64 v = map (\<lambda>k. ucast (drop_bit (8 * k) v)) [0..<8]"

text \<open>
  The inner loop of \<open>Hash\<close>, \<open>for i := len(hashes) - 1; i > 0; i--\<close>, with \<open>i = Suc j\<close>:
  one pass from the end of the slice to its start, swapping neighbours that are out of
  order.
\<close>

fun swap_pass :: "nat \<Rightarrow> uint64 list \<Rightarrow> uint64 list" where
  "swap_pass 0 hashes = hashes"
| "swap_pass (Suc j) hashes =
     swap_pass j
       (if hashes ! j > hashes ! Suc j
        then hashes[j := hashes ! Suc j, Suc j := hashes ! j]
        else hashes)"

text \<open>The callback that \<open>Hash\<close> gives to \<open>ForEachChild\<close>; \<open>hashes\<close> is the captured slice.\<close>

definition hash_child :: "('p, 'v) property_ops \<Rightarrow> uint64 list \<Rightarrow> 'p \<Rightarrow> uint64 list" where
  "hash_child ops hashes child =
     (if p_IsUnassigned ops child then hashes
      else let hashes' = hashes @ [p_Hash ops child]
           in swap_pass (length hashes' - 1) hashes')"

definition Hash :: "('p, 'v) property_ops \<Rightarrow> 'p multiValuedProperty \<Rightarrow> uint64" where
  "Hash ops p =
     (if length (elements p) = 0 then 0
      else let hashes = foldl (hash_child ops) [] (elements p)
           in foldl (\<lambda>h hash. fnv_Write h (PutUint64 hash)) offset64 hashes)"

subsection \<open>The relational predicates\<close>

definition errIncompatibleOp :: "'p multiValuedProperty \<Rightarrow> error" where
  "errIncompatibleOp p = Error Internal ''incompatible operation''"

text \<open>A Go result \<open>(bool, error)\<close> is a pair whose second component is \<open>None\<close> for nil.\<close>

definition StartsWith :: "'p multiValuedProperty \<Rightarrow> string \<Rightarrow> bool \<times> error option" where
  "StartsWith p v = (False, Some (errIncompatibleOp p))"

definition EndsWith :: "'p multiValuedProperty \<Rightarrow> string \<Rightarrow> bool \<times> error option" where
  "EndsWith p v = (False, Some (errIncompatibleOp p))"

definition Contains :: "'p multiValuedProperty \<Rightarrow> string \<Rightarrow> bool \<times> error option" where
  "Contains p v = (False, Some (errIncompatibleOp p))"

definition GreaterThan :: "'p multiValuedProperty \<Rightarrow> 'v go_value \<Rightarrow> bool \<times> error option" where
  "GreaterThan p v = (False, Some (errIncompatibleOp p))"

definition LessThan :: "'p multiValuedProperty \<Rightarrow> 'v go_value \<Rightarrow> bool \<times> error option" where
  "LessThan p v = (False, Some (errIncompatibleOp p))"

fun error_kind_of :: "bool \<times> error option \<Rightarrow> error_kind option" where
  "error_kind_of (b, None) = None"
| "error_kind_of (b, Some e) = Some (kind e)"

subsection \<open>Add\<close>







subsection \<open>Children\<close>

definition CountChildren :: "'p multiValuedProperty \<Rightarrow> int" where
  "CountChildren p = int (length (elements p))"

text \<open>
  \<open>ChildAtIndex\<close>: \<open>None\<close> is the nil property. Reading \<open>p.elements[i]\<close> with a negative \<open>i\<close>
  is a runtime panic in Go.
\<close>

definition ChildAtIndex :: "'p multiValuedProperty \<Rightarrow> 'v go_value \<Rightarrow> 'p option outcome" where
  "ChildAtIndex p idx =
     (case idx of
        GoInt i \<Rightarrow>
          if i \<ge> int (length (elements p)) then Ok None
          else if i < 0 then Panic IndexOutOfRange
          else Ok (Some (elements p ! nat i))
      | _ \<Rightarrow> Ok None)"


section \<open>The JSON serializer (package json)\<close>

subsection \<open>Paths and path families\<close>

text \<open>
  Modelled from the spec: the package \<open>expr\<close> is not among the sources. A compiled path is
  the sequence of attribute IDs from the root to its target (section 3.4); a nil path is the
  empty sequence. A \<open>PathAncestry\<close> holds the paths added to it and answers the three
  queries of section 3.4: \<open>IsMember p\<close> when \<open>p\<close> is one of them, \<open>IsAncestor p\<close> when one of
  them is a descendant of \<open>p\<close>, \<open>IsOffspring p\<close> when one of them is an ancestor of \<open>p\<close>
  (a path is neither its own ancestor nor its own offspring, testable property 1).
\<close>

type_synonym path = "string list"

type_synonym PathAncestry = "path list"

definition NewPathFamily :: "string \<Rightarrow> PathAncestry" where
  "NewPathFamily resourceType = []"

definition family_Add :: "PathAncestry \<Rightarrow> path \<Rightarrow> PathAncestry" where
  "family_Add family p = family @ [p]"

definition IsMember :: "PathAncestry \<Rightarrow> path \<Rightarrow> bool" where
  "IsMember family p = list_ex (\<lambda>q. q = p) family"

definition IsAncestor :: "PathAncestry \<Rightarrow> path \<Rightarrow> bool" where
  "IsAncestor family p = list_ex (\<lambda>q. strict_prefix p q) family"

definition IsOffspring :: "PathAncestry \<Rightarrow> path \<Rightarrow> bool" where
  "IsOffspring family p = list_ex (\<lambda>q. strict_prefix q p) family"

subsection \<open>Functions of other packages, taken as parameters\<close>

text \<open>
  A \<open>float64\<close> is its IEEE 754 bit pattern (\<open>math.Float64bits\<close>): sign, eleven bits of
  exponent, 52 bits of mantissa.
\<close>

type_synonym float64 = "64 word"

text \<open>
  \<open>expr.CompilePath\<close> and \<open>expr.MustPath\<close> (compiling a path or an attribute ID),
  \<open>strconv.AppendInt v 10\<close> and \<open>strconv.AppendFloat v format (-1) 64\<close> of the Go library.
\<close>

record externals =
  CompilePath :: "string \<Rightarrow> error + path"
  MustPath :: "string \<Rightarrow> path"
  AppendInt :: "64 word \<Rightarrow> byte list"
  AppendFloat :: "float64 \<Rightarrow> byte \<Rightarrow> byte list"

subsection \<open>Properties, as the serializer reads them\<close>

text \<open>
  A property is a leaf holding a raw value (\<open>None\<close> when unassigned), or one of the two
  containers (\<open>core.Container\<close>): a complex property with its sub-properties, or a
  multi-valued property with its elements.
\<close>

datatype raw = RawString "byte list" | RawInt64 "64 word" | RawFloat64 float64 | RawBool bool

datatype property =
    Leaf attribute "raw option"
  | Complex attribute "property list"
  | Multi attribute "property list"

fun Attribute :: "property \<Rightarrow> attribute" where
  "Attribute (Leaf a r) = a"
| "Attribute (Complex a children) = a"
| "Attribute (Multi a elems) = a"

text \<open>
  Modelled from the spec: \<open>IsUnassigned\<close> of a leaf (no value set) and of a complex property
  (all children unassigned) are not among the sources (section 3.2); that of a multi-valued
  property is \<open>len(p.elements) == 0\<close>, as in \<open>multi.go\<close>.
\<close>

fun IsUnassigned :: "property \<Rightarrow> bool" where
  "IsUnassigned (Leaf a r) = (r = None)"
| "IsUnassigned (Complex a children) = list_all IsUnassigned children"
| "IsUnassigned (Multi a elems) = (length elems = 0)"

text \<open>The type assertion \<open>property.(core.Container)\<close>.\<close>

fun is_Container :: "property \<Rightarrow> bool" where
  "is_Container (Leaf a r) = False"
| "is_Container (Complex a children) = True"
| "is_Container (Multi a elems) = True"

subsection \<open>The serializer's state\<close>

datatype container = containerObject | containerArray

record frame =
  container :: container
  index :: int

text \<open>
  The state: the embedded \<open>bytes.Buffer\<close>, the two families (\<open>None\<close> for nil) and the stack,
  whose top is its last element. The field \<open>scratch\<close> is a buffer for the digits of one
  number and is left out.
\<close>

record serializer =
  buffer :: "byte list"
  includeFamily :: "PathAncestry option"
  excludeFamily :: "PathAncestry option"
  stack :: "frame list"

definition new_serializer :: serializer where
  "new_serializer = \<lparr>buffer = [], includeFamily = None, excludeFamily = None, stack = []\<rparr>"

definition bytes :: "string \<Rightarrow> byte list" where
  "bytes str = map of_char str"

definition WriteByte :: "serializer \<Rightarrow> byte \<Rightarrow> serializer" where
  "WriteByte s c = s\<lparr>buffer := buffer s @ [c]\<rparr>"

definition WriteString :: "serializer \<Rightarrow> byte list \<Rightarrow> serializer" where
  "WriteString s str = s\<lparr>buffer := buffer s @ str\<rparr>"

definition push :: "serializer \<Rightarrow> container \<Rightarrow> serializer" where
  "push s c = s\<lparr>stack := stack s @ [\<lparr>container = c, index = 0\<rparr>]\<rparr>"

definition pop :: "serializer \<Rightarrow> serializer outcome" where
  "pop s =
     (if length (stack s) = 0 then Panic (PanicString ''cannot pop on empty stack'')
      else Ok (s\<lparr>stack := take (length (stack s) - 1) (stack s)\<rparr>))"

definition current :: "serializer \<Rightarrow> frame outcome" where
  "current s =
     (if length (stack s) = 0 then Panic (PanicString ''stack is empty'')
      else Ok (stack s ! (length (stack s) - 1)))"

text \<open>\<open>s.current().index++\<close>: the frame on top of the stack is updated in place.\<close>

definition increment_index :: "serializer \<Rightarrow> serializer outcome" where
  "increment_index s =
     (case current s of
        Ok f \<Rightarrow> Ok (s\<lparr>stack := (stack s)[length (stack s) - 1 := f\<lparr>index := index f + 1\<rparr>]\<rparr>)
      | Err e \<Rightarrow> Err e
      | Panic r \<Rightarrow> Panic r)"

subsection \<open>ShouldVisit\<close>

definition ShouldVisit :: "externals \<Rightarrow> serializer \<Rightarrow> property \<Rightarrow> bool outcome" where
  "ShouldVisit ext s property =
     (let attr = Attribute property in
      if Mutability attr = MutabilityWriteOnly then Ok False
      else (case Returned attr of
              ReturnedAlways \<Rightarrow> Ok True
            | ReturnedNever \<Rightarrow> Ok False
            | ReturnedDefault \<Rightarrow>
                if includeFamily s = None \<and> excludeFamily s = None
                then Ok (\<not> IsUnassigned property)
                else (let p = MustPath ext (ID (Attribute property)) in
                      case includeFamily s of
                        Some family \<Rightarrow>
                          Ok (IsMember family p \<or> IsAncestor family p \<or> IsOffspring family p)
                      | None \<Rightarrow>
                          (case excludeFamily s of
                             Some family \<Rightarrow> Ok (IsMember family p \<or> IsOffspring family p)
                           | None \<Rightarrow>
                               Panic (PanicString ''impossible: either includeFamily or excludeFamily'')))
            | ReturnedRequest \<Rightarrow>
                (case includeFamily s of
                   Some family \<Rightarrow>
                     (let p = (case CompilePath ext (ID (Attribute property)) of
                                 Inr q \<Rightarrow> q | Inl err \<Rightarrow> [])
                      in Ok (IsMember family p \<or> IsAncestor family p \<or> IsOffspring family p))
                 | None \<Rightarrow> Ok False)))"

subsection \<open>Writing names and values\<close>

definition appendPropertyName :: "serializer \<Rightarrow> attribute \<Rightarrow> serializer" where
  "appendPropertyName s attribute =
     WriteByte (WriteByte (WriteString (WriteByte s 0x22) (bytes (Name attribute))) 0x22) 0x3A"

definition appendNull :: "serializer \<Rightarrow> serializer" where
  "appendNull s = WriteString s (bytes ''null'')"

definition appendBoolean :: "serializer \<Rightarrow> bool \<Rightarrow> serializer" where
  "appendBoolean s v = (if v then WriteString s (bytes ''true'') else WriteString s (bytes ''false''))"

definition appendInteger :: "externals \<Rightarrow> serializer \<Rightarrow> 64 word \<Rightarrow> serializer" where
  "appendInteger ext s v = WriteString s (AppendInt ext v)"

text \<open>
  \<open>math.IsNaN\<close>, \<open>math.IsInf value 0\<close> and \<open>math.Abs\<close> on the bit pattern. \<open>Abs\<close> clears the
  sign bit, so its result is not negative, and on the bit patterns of two floats that are
  neither negative nor NaN the order of the floats is the unsigned order of the words: the
  comparisons of \<open>abs\<close> with the constants \<open>0\<close>, \<open>1e-6\<close> and \<open>1e21\<close> are comparisons of words.
\<close>

definition IsNaN :: "float64 \<Rightarrow> bool" where
  "IsNaN f = (f AND 0x7FF0000000000000 = 0x7FF0000000000000 \<and> f AND 0x000FFFFFFFFFFFFF \<noteq> 0)"

definition IsInf :: "float64 \<Rightarrow> bool" where
  "IsInf f = (f AND 0x7FFFFFFFFFFFFFFF = 0x7FF0000000000000)"

definition Abs :: "float64 \<Rightarrow> float64" where
  "Abs f = f AND 0x7FFFFFFFFFFFFFFF"

definition float_1e_minus_6 :: float64 where
  "float_1e_minus_6 = 0x3EB0C6F7A0B5ED8D"

definition float_1e21 :: float64 where
  "float_1e21 = 0x444B1AE4D6E2EF50"

text \<open>The choice of the format in \<open>appendFloat\<close>: the byte \<open>'e'\<close> or the byte \<open>'f'\<close>.\<close>

definition float_format :: "float64 \<Rightarrow> byte" where
  "float_format v =
     (let abs = Abs v in
      if abs \<noteq> 0 \<and> (abs < float_1e_minus_6 \<or> abs \<ge> float_1e21) then 0x65 else 0x66)"

text \<open>The clean-up of the exponent in \<open>appendFloat\<close>: \<open>e-09\<close> becomes \<open>e-9\<close>.\<close>

definition clean_exponent :: "byte list \<Rightarrow> byte list" where
  "clean_exponent b =
     (let n = length b in
      if n \<ge> 4 \<and> b ! (n - 4) = 0x65 \<and> b ! (n - 3) = 0x2D \<and> b ! (n - 2) = 0x30
      then take (n - 1) (b[n - 2 := b ! (n - 1)])
      else b)"

definition appendFloat :: "externals \<Rightarrow> serializer \<Rightarrow> float64 \<Rightarrow> serializer outcome" where
  "appendFloat ext s v =
     (if IsInf v \<or> IsNaN v then Panic (PanicError (Error Internal ''%f is not a valid decimal''))
      else (let format = float_format v;
                b = AppendFloat ext v format;
                b = (if format = 0x65 then clean_exponent b else b)
            in Ok (WriteString s b)))"

subsection \<open>appendString\<close>

text \<open>
  \<open>utf8.DecodeRuneInString\<close> of the Go library: the first rune of a string and its width in
  bytes; \<open>(RuneError, 1)\<close> for an encoding that is not valid UTF-8 (a stray continuation
  byte, an overlong form, a surrogate, a value above U+10FFFF, a truncated sequence) and
  \<open>(RuneError, 0)\<close> for the empty string.
\<close>

type_synonym rune = "32 word"

definition RuneError :: rune where
  "RuneError = 0xFFFD"

definition RuneSelf :: byte where
  "RuneSelf = 0x80"

text \<open>
  For a first byte from \<open>0xC2\<close> to \<open>0xF4\<close>: the width of the encoding it starts, and the
  range accepted for the second byte (the tables \<open>first\<close> and \<open>acceptRanges\<close> of package
  utf8). Every further byte is a continuation byte, from \<open>0x80\<close> to \<open>0xBF\<close>.
\<close>

definition rune_width :: "byte \<Rightarrow> nat" where
  "rune_width s0 = (if s0 < 0xE0 then 2 else if s0 < 0xF0 then 3 else 4)"

definition accept_lo :: "byte \<Rightarrow> byte" where
  "accept_lo s0 = (if s0 = 0xE0 then 0xA0 else if s0 = 0xF0 then 0x90 else 0x80)"

definition accept_hi :: "byte \<Rightarrow> byte" where
  "accept_hi s0 = (if s0 = 0xED then 0x9F else if s0 = 0xF4 then 0x8F else 0xBF)"

definition continuation :: "byte \<Rightarrow> bool" where
  "continuation b = (0x80 \<le> b \<and> b \<le> 0xBF)"

definition rune2 :: "byte \<Rightarrow> byte \<Rightarrow> rune" where
  "rune2 s0 s1 = push_bit 6 (ucast (s0 AND 0x1F)) OR ucast (s1 AND 0x3F)"

definition rune3 :: "byte \<Rightarrow> byte \<Rightarrow> byte \<Rightarrow> rune" where
  "rune3 s0 s1 s2 =
     push_bit 12 (ucast (s0 AND 0x0F)) OR push_bit 6 (ucast (s1 AND 0x3F)) OR ucast (s2 AND 0x3F)"

definition rune4 :: "byte \<Rightarrow> byte \<Rightarrow> byte \<Rightarrow> byte \<Rightarrow> rune" where
  "rune4 s0 s1 s2 s3 =
     push_bit 18 (ucast (s0 AND 0x07)) OR push_bit 12 (ucast (s1 AND 0x3F))
       OR push_bit 6 (ucast (s2 AND 0x3F)) OR ucast (s3 AND 0x3F)"

fun DecodeRuneInString :: "byte list \<Rightarrow> rune \<times> nat" where
  "DecodeRuneInString [] = (RuneError, 0)"
| "DecodeRuneInString (s0 # rest) =
     (if s0 < 0x80 then (ucast s0, 1)
      else if s0 < 0xC2 \<or> 0xF4 < s0 then (RuneError, 1)
      else if length (s0 # rest) < rune_width s0 then (RuneError, 1)
      else if rest ! 0 < accept_lo s0 \<or> accept_hi s0 < rest ! 0 then (RuneError, 1)
      else if rune_width s0 \<le> 2 then (rune2 s0 (rest ! 0), 2)
      else if \<not> continuation (rest ! 1) then (RuneError, 1)
      else if rune_width s0 \<le> 3 then (rune3 s0 (rest ! 0) (rest ! 1), 3)
      else if \<not> continuation (rest ! 2) then (RuneError, 1)
      else (rune4 s0 (rest ! 0) (rest ! 1) (rest ! 2), 4))"

text \<open>
  Modelled from the spec: the table \<open>htmlSafeSet\<close> and the string \<open>hex\<close> are not among the
  sources. A byte is HTML-safe when it is printable ASCII (\<open>0x20\<close> to \<open>0x7F\<close>) and none of
  \<open>"\<close>, \<open>\\<close>, \<open><\<close>, \<open>>\<close>, \<open>&\<close> (section 4.7, string encoding); \<open>hex\<close> holds the sixteen
  lower-case hexadecimal digits.
\<close>

definition htmlSafeSet :: "byte \<Rightarrow> bool" where
  "htmlSafeSet b =
     (0x20 \<le> b \<and> b < 0x80 \<and> b \<noteq> 0x22 \<and> b \<noteq> 0x5C \<and> b \<noteq> 0x3C \<and> b \<noteq> 0x3E \<and> b \<noteq> 0x26)"

definition hex :: "byte list" where
  "hex = bytes ''0123456789abcdef''"

text \<open>\<open>value[start:i]\<close>, for \<open>start \<le> i \<le> len(value)\<close>.\<close>

definition byte_slice :: "byte list \<Rightarrow> nat \<Rightarrow> nat \<Rightarrow> byte list" where
  "byte_slice v start i = take (i - start) (drop start v)"

text \<open>\<open>if start < i { s.WriteString(value[start:i]) }\<close>\<close>

definition flush :: "serializer \<Rightarrow> byte list \<Rightarrow> nat \<Rightarrow> nat \<Rightarrow> serializer" where
  "flush s v start i = (if start < i then WriteString s (byte_slice v start i) else s)"

text \<open>The switch on an ASCII byte that is not HTML-safe, after the backslash is written.\<close>

definition escape_byte :: "serializer \<Rightarrow> byte \<Rightarrow> serializer" where
  "escape_byte s b =
     (if b = 0x5C \<or> b = 0x22 then WriteByte s b
      else if b = 0x0A then WriteByte s 0x6E
      else if b = 0x0D then WriteByte s 0x72
      else if b = 0x09 then WriteByte s 0x74
      else WriteByte (WriteByte (WriteString s (bytes ''u00'')) (hex ! unat (drop_bit 4 b)))
             (hex ! unat (b AND 0xF)))"

lemma DecodeRuneInString_size_pos: "v \<noteq> [] \<Longrightarrow> 0 < snd (DecodeRuneInString v)"
  by (cases v) simp_all

lemma DecodeRuneInString_size_le: "snd (DecodeRuneInString v) \<le> length v"
  by (cases v) (auto simp: rune_width_def Suc_le_eq not_less)

declare DecodeRuneInString.simps [simp del]

lemma DecodeRuneInString_advances:
  assumes "i < length v" and "(c, sz) = DecodeRuneInString (drop i v)"
  shows "length v - (i + sz) < length v - i"
proof -
  have "drop i v \<noteq> []" using assms(1) by simp
  then have "0 < snd (DecodeRuneInString (drop i v))" by (rule DecodeRuneInString_size_pos)
  then have "0 < sz" using assms(2) by (metis snd_conv)
  then show ?thesis using assms(1) by simp
qed

text \<open>The loop of \<open>appendString\<close>, with its variables \<open>i\<close> and \<open>start\<close>; \<open>sz\<close> is the
  source's \<open>size\<close>.\<close>

function appendString_loop :: "serializer \<Rightarrow> byte list \<Rightarrow> nat \<Rightarrow> nat \<Rightarrow> serializer" where
  "appendString_loop s v i start =
     (if i < length v then
        (let b = v ! i in
         if b < RuneSelf then
           (if htmlSafeSet b then appendString_loop s v (i + 1) start
            else appendString_loop
                   (escape_byte (WriteByte (flush s v start i) 0x5C) b) v (i + 1) (i + 1))
         else
           (case DecodeRuneInString (drop i v) of
              (c, sz) \<Rightarrow>
                if c = RuneError \<and> sz = 1 then
                  appendString_loop
                    (WriteString (flush s v start i) (0x5C # bytes ''ufffd'')) v (i + sz) (i + sz)
                else if c = 0x2028 \<or> c = 0x2029 then
                  appendString_loop
                    (WriteByte (WriteString (flush s v start i) (0x5C # bytes ''u202''))
                       (hex ! unat (c AND 0xF))) v (i + sz) (i + sz)
                else appendString_loop s v (i + sz) start))
      else (if start < length v then WriteString s (drop start v) else s))"
  by pat_completeness auto
termination
  by (relation "measure (\<lambda>(s, v, i, start). length v - i)")
     (auto intro: DecodeRuneInString_advances)

definition appendString :: "serializer \<Rightarrow> byte list \<Rightarrow> serializer" where
  "appendString s v = WriteByte (appendString_loop (WriteByte s 0x22) v 0 0) 0x22"

subsection \<open>Visit, BeginChildren, EndChildren\<close>

text \<open>Sequencing of calls: a panic or an error of the first ends the sequence.\<close>

definition and_then :: "'a outcome \<Rightarrow> ('a \<Rightarrow> 'b outcome) \<Rightarrow> 'b outcome" where
  "and_then r f = (case r of Ok x \<Rightarrow> f x | Err e \<Rightarrow> Err e | Panic p \<Rightarrow> Panic p)"

lemma and_then_cong [fundef_cong]:
  "r = r' \<Longrightarrow> (\<And>x. r' = Ok x \<Longrightarrow> f x = f' x) \<Longrightarrow> and_then r f = and_then r' f'"
  by (cases r') (simp_all add: and_then_def)

text \<open>\<open>Raw()\<close>, which \<open>Visit\<close> calls on an assigned leaf only.\<close>

fun Raw :: "property \<Rightarrow> raw option" where
  "Raw (Leaf a r) = r"
| "Raw (Complex a children) = None"
| "Raw (Multi a elems) = None"

text \<open>
  The switch on the attribute's type in \<open>Visit\<close>. A type assertion such as
  \<open>property.Raw().(string)\<close> panics when the raw value is of another type.
\<close>

definition typed_literal :: "externals \<Rightarrow> serializer \<Rightarrow> attr_type \<Rightarrow> raw option \<Rightarrow> serializer outcome" where
  "typed_literal ext s t r =
     (if t = TypeString \<or> t = TypeReference \<or> t = TypeDateTime \<or> t = TypeBinary
      then (case r of Some (RawString v) \<Rightarrow> Ok (appendString s v) | _ \<Rightarrow> Panic TypeAssertion)
      else if t = TypeInteger
      then (case r of Some (RawInt64 v) \<Rightarrow> Ok (appendInteger ext s v) | _ \<Rightarrow> Panic TypeAssertion)
      else if t = TypeDecimal
      then (case r of Some (RawFloat64 v) \<Rightarrow> appendFloat ext s v | _ \<Rightarrow> Panic TypeAssertion)
      else if t = TypeBoolean
      then (case r of Some (RawBool v) \<Rightarrow> Ok (appendBoolean s v) | _ \<Rightarrow> Panic TypeAssertion)
      else Panic (PanicString ''invalid type''))"

definition Visit :: "externals \<Rightarrow> serializer \<Rightarrow> property \<Rightarrow> serializer outcome" where
  "Visit ext s property =
     and_then (current s) (\<lambda>f.
       let s = (if index f > 0 then WriteByte s 0x2C else s);
           s = (if container f \<noteq> containerArray
                then appendPropertyName s (Attribute property) else s)
       in if is_Container property then Ok s
          else if IsUnassigned property then Ok (appendNull s)
          else and_then (typed_literal ext s (Type (Attribute property)) (Raw property))
                 increment_index)"

definition BeginChildren :: "serializer \<Rightarrow> property \<Rightarrow> serializer outcome" where
  "BeginChildren s c =
     (if MultiValued (Attribute c) then Ok (push (WriteByte s 0x5B) containerArray)
      else if Type (Attribute c) = TypeComplex then Ok (push (WriteByte s 0x7B) containerObject)
      else Panic (PanicString ''unknown container''))"

definition EndChildren :: "serializer \<Rightarrow> property \<Rightarrow> serializer outcome" where
  "EndChildren s c =
     and_then
       (if MultiValued (Attribute c) then Ok (WriteByte s 0x5D)
        else if Type (Attribute c) = TypeComplex then Ok (WriteByte s 0x7D)
        else Panic (PanicString ''unknown container''))
       (\<lambda>s. and_then (pop s)
          (\<lambda>s. if length (stack s) > 0 then increment_index s else Ok s))"

subsection \<open>The traversal\<close>

text \<open>
  Modelled from the spec: \<open>Resource.Visit\<close> and the traversal of the package \<open>prop\<close> are not
  among the sources. The traversal is depth first (sections 4.6 and 6.3): a property is
  skipped with its subtree when \<open>ShouldVisit\<close> is false; otherwise \<open>Visit\<close> is called, and for
  a container \<open>BeginChildren\<close>, the traversal of its children in stored order, and
  \<open>EndChildren\<close>. The root of a resource is a complex property that is not itself visited:
  the traversal brackets its children with \<open>BeginChildren\<close> and \<open>EndChildren\<close>.
\<close>

fun visit_property :: "externals \<Rightarrow> serializer \<Rightarrow> property \<Rightarrow> serializer outcome"
  and visit_children :: "externals \<Rightarrow> serializer \<Rightarrow> property list \<Rightarrow> serializer outcome" where
  "visit_property ext s (Leaf a r) =
     and_then (ShouldVisit ext s (Leaf a r))
       (\<lambda>should. if \<not> should then Ok s else Visit ext s (Leaf a r))"
| "visit_property ext s (Complex a children) =
     and_then (ShouldVisit ext s (Complex a children))
       (\<lambda>should. if \<not> should then Ok s
          else and_then (Visit ext s (Complex a children))
            (\<lambda>s. and_then (BeginChildren s (Complex a children))
              (\<lambda>s. and_then (visit_children ext s children)
                (\<lambda>s. EndChildren s (Complex a children)))))"
| "visit_property ext s (Multi a elems) =
     and_then (ShouldVisit ext s (Multi a elems))
       (\<lambda>should. if \<not> should then Ok s
          else and_then (Visit ext s (Multi a elems))
            (\<lambda>s. and_then (BeginChildren s (Multi a elems))
              (\<lambda>s. and_then (visit_children ext s elems)
                (\<lambda>s. EndChildren s (Multi a elems)))))"
| "visit_children ext s [] = Ok s"
| "visit_children ext s (child # rest) =
     and_then (visit_property ext s child) (\<lambda>s. visit_children ext s rest)"

fun children_of :: "property \<Rightarrow> property list" where
  "children_of (Leaf a r) = []"
| "children_of (Complex a children) = children"
| "children_of (Multi a elems) = elems"

record resource =
  ResourceType :: string
  data :: property

definition Resource_Visit :: "externals \<Rightarrow> serializer \<Rightarrow> resource \<Rightarrow> serializer outcome" where
  "Resource_Visit ext s r =
     and_then (BeginChildren s (data r))
       (\<lambda>s. and_then (visit_children ext s (children_of (data r)))
          (\<lambda>s. EndChildren s (data r)))"

subsection \<open>Serialize\<close>

text \<open>
  Modelled from the spec: the type \<open>options\<close> and its constructor \<open>Options()\<close> are not among the
  sources; \<open>Options()\<close> has no included and no excluded path (section 6.1).
\<close>

record options =
  included :: "string list"
  excluded :: "string list"

definition Options :: options where
  "Options = \<lparr>included = [], excluded = []\<rparr>"

text \<open>The loop that compiles each path and adds it to the family; the first error ends it.\<close>

fun compile_paths :: "externals \<Rightarrow> PathAncestry \<Rightarrow> string list \<Rightarrow> PathAncestry outcome" where
  "compile_paths ext family [] = Ok family"
| "compile_paths ext family (path # rest) =
     (case CompilePath ext path of
        Inl err \<Rightarrow> Err err
      | Inr p \<Rightarrow> compile_paths ext (family_Add family p) rest)"

text \<open>
  \<open>Serialize\<close>; \<open>None\<close> is a nil \<open>options\<close>. An error of the traversal is wrapped in an
  internal error; a panic of the traversal is not recovered.
\<close>

definition Serialize :: "externals \<Rightarrow> resource \<Rightarrow> options option \<Rightarrow> byte list outcome" where
  "Serialize ext resource opts =
     (let options = (case opts of None \<Rightarrow> Options | Some given \<Rightarrow> given) in
      if length (included options) > 0 \<and> length (excluded options) > 0
      then Err (Error InvalidRequest ''only one of 'attributes' and 'excludedAttributes' may be used'')
      else
        and_then
          (if length (included options) > 0
           then and_then (compile_paths ext (NewPathFamily (ResourceType resource)) (included options))
                  (\<lambda>family. Ok (new_serializer\<lparr>includeFamily := Some family\<rparr>))
           else if length (excluded options) > 0
           then and_then (compile_paths ext (NewPathFamily (ResourceType resource)) (excluded options))
                  (\<lambda>family. Ok (new_serializer\<lparr>excludeFamily := Some family\<rparr>))
           else Ok new_serializer)
          (\<lambda>s. case Resource_Visit ext s resource of
                  Ok s' \<Rightarrow> Ok (buffer s')
                | Err err \<Rightarrow> Err (Error Internal ''JSON serialization error: %s'')
                | Panic r \<Rightarrow> Panic r))"

section \<open>Auxiliary definitions for the statements\<close>


text \<open>The FNV-1a hash of a sequence of bytes: \<open>New64a\<close>, one \<open>Write\<close>, \<open>Sum64\<close>.\<close>

definition fnv64a :: "byte list \<Rightarrow> uint64" where
  "fnv64a b = fnv_Write offset64 b"

text \<open>
  An element type for examples: the element is a number, \<open>0\<close> when unassigned; \<open>Replace\<close>
  accepts a number and rejects any other value; two elements match when they are equal.
\<close>

definition example_ops :: "(nat, nat) property_ops" where
  "example_ops =
     \<lparr>new_property = (\<lambda>t a. 0),
      p_Replace = (\<lambda>p v. case v of GoOther n \<Rightarrow> Replaced n
                            | _ \<Rightarrow> ReplaceFailed (Error InvalidValue ''not a number'')),
      p_Matches = (\<lambda>p q. p = q),
      p_IsUnassigned = (\<lambda>p. p = 0),
      p_Hash = of_nat\<rparr>"

definition example_attr :: attribute where
  "example_attr =
     \<lparr>Name = ''numbers'', ID = ''numbers'', Type = TypeInteger, MultiValued = True,
      Mutability = MutabilityReadWrite, Returned = ReturnedDefault\<rparr>"

definition example_multi :: "nat list \<Rightarrow> nat multiValuedProperty" where
  "example_multi es = \<lparr>attr = example_attr, elements = es, touched = False\<rparr>"

text \<open>
  The string encoding of section 4.7 of the specification, written unit by unit, to be
  compared with \<open>appendString\<close>. An ASCII byte is a unit: it stands for itself when it is
  HTML-safe, and is escaped otherwise: \<open>\\<close> and \<open>"\<close> with a backslash, the control bytes as
  \<open>\n\<close>, \<open>\r\<close>, \<open>\t\<close> or \<open>\u00XX\<close>, and \<open><\<close>, \<open>>\<close>, \<open>&\<close> as \<open>\u00XX\<close>. A byte that starts no
  valid UTF-8 encoding is a unit, replaced with the six bytes \<open>\ufffd\<close>. The encodings of U+2028 and
  U+2029 are replaced with the six bytes \<open>\u2028\<close> and \<open>\u2029\<close>. Any other valid encoding stands for
  itself.
\<close>

definition spec_escape_ascii :: "byte \<Rightarrow> byte list" where
  "spec_escape_ascii b =
     (if b = 0x5C then [0x5C, 0x5C]
      else if b = 0x22 then [0x5C, 0x22]
      else if b = 0x0A then [0x5C, 0x6E]
      else if b = 0x0D then [0x5C, 0x72]
      else if b = 0x09 then [0x5C, 0x74]
      else if b < 0x20 \<or> b = 0x3C \<or> b = 0x3E \<or> b = 0x26
      then [0x5C, 0x75, 0x30, 0x30, hex ! unat (drop_bit 4 b), hex ! unat (b AND 0xF)]
      else [b])"

lemma DecodeRuneInString_drop_shorter:
  assumes "(c, sz) = DecodeRuneInString (b # rest)"
  shows "Suc (length rest) - sz < Suc (length rest)"
proof -
  have "0 < snd (DecodeRuneInString (b # rest))"
    by (rule DecodeRuneInString_size_pos) simp
  then have "0 < sz" using assms by (metis snd_conv)
  then show ?thesis by simp
qed

function spec_escaped :: "byte list \<Rightarrow> byte list" where
  "spec_escaped [] = []"
| "spec_escaped (b # rest) =
     (if b < 0x80 then spec_escape_ascii b @ spec_escaped rest
      else (case DecodeRuneInString (b # rest) of
              (c, sz) \<Rightarrow>
                if c = RuneError \<and> sz = 1 then 0x5C # bytes ''ufffd'' @ spec_escaped rest
                else if c = 0x2028 then 0x5C # bytes ''u2028'' @ spec_escaped (drop sz (b # rest))
                else if c = 0x2029 then 0x5C # bytes ''u2029'' @ spec_escaped (drop sz (b # rest))
                else take sz (b # rest) @ spec_escaped (drop sz (b # rest))))"
  by pat_completeness auto
termination
  by (relation "measure length")
     (auto intro: DecodeRuneInString_drop_shorter)

text \<open>
  Parameters for examples: paths are compiled to themselves, except for the sub-attributes
  of \<open>name\<close>; the formatter of floats is the Go library's on the value \<open>1.5e-9\<close> (bit pattern
  \<open>0x3E19C511DC3A41DF\<close>), whose exponent form is \<open>1.5e-09\<close>, and on any other value it
  returns the one byte of the format it is called with.
\<close>

definition example_path :: "string \<Rightarrow> path" where
  "example_path p =
     (if p = ''name.familyName'' then [''name'', ''name.familyName'']
      else if p = ''name.givenName'' then [''name'', ''name.givenName'']
      else [p])"

definition example_ext :: externals where
  "example_ext =
     \<lparr>CompilePath = (\<lambda>p. Inr (example_path p)),
      MustPath = example_path,
      AppendInt = (\<lambda>v. bytes ''0''),
      AppendFloat = (\<lambda>v format.
        if v = 0x3E19C511DC3A41DF
        then (if format = 0x65 then bytes ''1.5e-09'' else bytes ''0.0000000015'')
        else [format])\<rparr>"

text \<open>
  A user resource for examples: \<open>schemas\<close> and \<open>id\<close> are always returned, \<open>userName\<close> and
  \<open>name\<close> (with its two sub-attributes) by default, \<open>password\<close> is write-only and never
  returned.
\<close>

definition mk_attribute :: "string \<Rightarrow> string \<Rightarrow> attr_type \<Rightarrow> bool \<Rightarrow> mutability \<Rightarrow> returned \<Rightarrow> attribute" where
  "mk_attribute n i t mv m r =
     \<lparr>Name = n, ID = i, Type = t, MultiValued = mv, Mutability = m, Returned = r\<rparr>"

definition schemas_property :: property where
  "schemas_property =
     Multi (mk_attribute ''schemas'' ''schemas'' TypeString True MutabilityReadOnly ReturnedAlways)
       [Leaf (mk_attribute ''schemas'' ''schemas'' TypeString False MutabilityReadOnly ReturnedAlways)
          (Some (RawString (bytes ''urn:User'')))]"

definition id_property :: "raw option \<Rightarrow> property" where
  "id_property r = Leaf (mk_attribute ''id'' ''id'' TypeString False MutabilityReadOnly ReturnedAlways) r"

definition userName_property :: property where
  "userName_property =
     Leaf (mk_attribute ''userName'' ''userName'' TypeString False MutabilityReadWrite ReturnedDefault)
       (Some (RawString (bytes ''bob'')))"

definition name_property :: property where
  "name_property =
     Complex (mk_attribute ''name'' ''name'' TypeComplex False MutabilityReadWrite ReturnedDefault)
       [Leaf (mk_attribute ''familyName'' ''name.familyName'' TypeString False MutabilityReadWrite
                ReturnedDefault) (Some (RawString (bytes ''Smith''))),
        Leaf (mk_attribute ''givenName'' ''name.givenName'' TypeString False MutabilityReadWrite
                ReturnedDefault) (Some (RawString (bytes ''Bob'')))]"

definition password_property :: property where
  "password_property =
     Leaf (mk_attribute ''password'' ''password'' TypeString False MutabilityWriteOnly ReturnedNever)
       (Some (RawString (bytes ''p'')))"

definition resource_of :: "property list \<Rightarrow> resource" where
  "resource_of children =
     \<lparr>ResourceType = ''User'',
      data = Complex (mk_attribute ''User'' ''User'' TypeComplex False MutabilityReadWrite ReturnedDefault)
               children\<rparr>"

definition user_resource :: resource where
  "user_resource =
     resource_of [schemas_property, id_property (Some (RawString (bytes ''a1''))), userName_property,
                  name_property, password_property]"

text \<open>
  The default returned-semantics (section 4.7, with no projection configured): a property
  is written unless it is write-only, when it is always returned, or returned by default
  and assigned.
\<close>

definition default_returned :: "property \<Rightarrow> bool" where
  "default_returned p =
     (Mutability (Attribute p) \<noteq> MutabilityWriteOnly \<and>
      (Returned (Attribute p) = ReturnedAlways \<or>
       (Returned (Attribute p) = ReturnedDefault \<and> \<not> IsUnassigned p)))"

text \<open>Two states of the serializer with the same families.\<close>

definition same_families :: "serializer \<Rightarrow> serializer \<Rightarrow> bool" where
  "same_families s s' = (includeFamily s' = includeFamily s \<and> excludeFamily s' = excludeFamily s)"

text \<open>A write-only attribute that is always returned, and the path of \<open>name\<close>.\<close>

definition secret_property :: property where
  "secret_property =
     Leaf (mk_attribute ''secret'' ''secret'' TypeString False MutabilityWriteOnly ReturnedAlways)
       (Some (RawString (bytes ''s3'')))"

definition excluding_name :: serializer where
  "excluding_name = new_serializer\<lparr>excludeFamily := Some [[''name'']]\<rparr>"

definition in_object :: serializer where
  "in_object = new_serializer\<lparr>stack := [\<lparr>container = containerObject, index = 0\<rparr>]\<rparr>"


section \<open>Theorems: the multi-valued property\<close>

subsection \<open>Hash\<close>

lemma insort_snoc_le:
  assumes "sorted (ys @ [y])" and "y \<le> x"
  shows "insort x (ys @ [y]) = ys @ [y, x]"
proof -
  have "\<forall>z\<in>set (ys @ [y]). z \<le> x"
    using assms by (auto simp: sorted_append intro: order_trans)
  then have "insort x (ys @ [y]) = (ys @ [y]) @ [x]"
    using assms(1) by (intro sorted_insort_is_snoc)
  then show ?thesis by simp
qed

lemma insort_snoc_gt: "x < y \<Longrightarrow> insort x (ys @ [y]) = insort x ys @ [y]"
  by (induction ys) auto

text \<open>One pass over a sorted slice with a new last element puts that element in its place.\<close>

lemma swap_pass_insort:
  "sorted xs \<Longrightarrow> swap_pass (length xs) (xs @ x # rest) = insort x xs @ rest"
proof (induction xs arbitrary: x rest rule: rev_induct)
  case Nil
  then show ?case by simp
next
  case (snoc y ys)
  have sys: "sorted ys" using snoc.prems by (simp add: sorted_append)
  show ?case
  proof (cases "y > x")
    case True
    have "swap_pass (length (ys @ [y])) ((ys @ [y]) @ x # rest)
            = swap_pass (length ys) (ys @ x # (y # rest))"
      using True by (simp add: nth_append list_update_append)
    also have "\<dots> = insort x ys @ y # rest" using snoc.IH[OF sys] by simp
    finally show ?thesis using True by (simp add: insort_snoc_gt)
  next
    case False
    have "swap_pass (length (ys @ [y])) ((ys @ [y]) @ x # rest)
            = swap_pass (length ys) (ys @ y # (x # rest))"
      using False by (simp add: nth_append)
    also have "\<dots> = insort y ys @ x # rest" using snoc.IH[OF sys] by simp
    also have "insort y ys = ys @ [y]" using snoc.prems
      by (simp add: sorted_insort_is_snoc sorted_append)
    finally show ?thesis using False snoc.prems by (simp add: insort_snoc_le)
  qed
qed

lemma hash_child_assigned:
  "sorted hashes \<Longrightarrow> \<not> p_IsUnassigned ops c \<Longrightarrow>
   hash_child ops hashes c = insort (p_Hash ops c) hashes"
  using swap_pass_insort[of hashes "p_Hash ops c" "[]"] by (simp add: hash_child_def)

lemma gathered_sorted_mset:
  "sorted acc \<Longrightarrow>
   sorted (foldl (hash_child ops) acc cs) \<and>
   mset (foldl (hash_child ops) acc cs) =
     mset acc + mset (map (p_Hash ops) (filter (\<lambda>c. \<not> p_IsUnassigned ops c) cs))"
proof (induction cs arbitrary: acc)
  case Nil
  then show ?case by simp
next
  case (Cons c cs)
  show ?case
  proof (cases "p_IsUnassigned ops c")
    case True
    then show ?thesis using Cons.IH[OF Cons.prems] by (simp add: hash_child_def)
  next
    case False
    have s: "sorted (insort (p_Hash ops c) acc)" using Cons.prems by (simp add: sorted_insort)
    show ?thesis using False Cons.IH[OF s] Cons.prems by (simp add: hash_child_assigned)
  qed
qed

lemma gathered_sort:
  "foldl (hash_child ops) [] cs =
     sort (map (p_Hash ops) (filter (\<lambda>c. \<not> p_IsUnassigned ops c) cs))"
proof -
  have g: "sorted (foldl (hash_child ops) [] cs)"
    and m: "mset (foldl (hash_child ops) [] cs) =
       mset (map (p_Hash ops) (filter (\<lambda>c. \<not> p_IsUnassigned ops c) cs))"
    using gathered_sorted_mset[of "[]" ops cs] by simp_all
  show ?thesis using properties_for_sort[OF m g] by simp
qed

lemma fnv_Write_append: "fnv_Write h (a @ b) = fnv_Write (fnv_Write h a) b"
  by (simp add: fnv_Write_def)

lemma fnv_Write_concat:
  "foldl (\<lambda>h hash. fnv_Write h (PutUint64 hash)) h0 hs = fnv_Write h0 (concat (map PutUint64 hs))"
  by (induction hs arbitrary: h0) (simp_all add: fnv_Write_append fnv_Write_def)

lemma Hash_sorted:
  "elements p \<noteq> [] \<Longrightarrow>
   Hash ops p = fnv64a (concat (map PutUint64
      (sort (map (p_Hash ops) (filter (\<lambda>c. \<not> p_IsUnassigned ops c) (elements p))))))"
  by (simp add: Hash_def gathered_sort fnv_Write_concat fnv64a_def)

lemma sort_assigned_hashes_mset:
  assumes "mset es' = mset es"
  shows "sort (map (p_Hash ops) (filter (\<lambda>c. \<not> p_IsUnassigned ops c) es'))
       = sort (map (p_Hash ops) (filter (\<lambda>c. \<not> p_IsUnassigned ops c) es))"
proof -
  have "mset (map (p_Hash ops) (filter (\<lambda>c. \<not> p_IsUnassigned ops c) es'))
      = image_mset (p_Hash ops) (filter_mset (\<lambda>c. \<not> p_IsUnassigned ops c) (mset es'))"
    by simp
  also have "\<dots> = image_mset (p_Hash ops) (filter_mset (\<lambda>c. \<not> p_IsUnassigned ops c) (mset es))"
    using assms by simp
  also have "\<dots> = mset (map (p_Hash ops) (filter (\<lambda>c. \<not> p_IsUnassigned ops c) es))"
    by simp
  finally show ?thesis
    by (metis properties_for_sort sorted_sort mset_sort)
qed

text \<open>
  C3. The hash of a multi-valued property is the FNV-1a hash of the little-endian bytes of
  its assigned elements' hashes, sorted ascending; a property whose elements are a
  permutation of another's (the same multiset of elements) has the same hash; the hash of
  a property with no element is 0.
\<close>

theorem Hash_order_insensitive:
  "(elements p \<noteq> [] \<longrightarrow>
      Hash ops p = fnv64a (concat (map PutUint64
         (sort (map (p_Hash ops) (filter (\<lambda>c. \<not> p_IsUnassigned ops c) (elements p)))))))
   \<and> (mset (elements q) = mset (elements p) \<longrightarrow> Hash ops q = Hash ops p)
   \<and> (elements p = [] \<longrightarrow> Hash ops p = 0)"
proof (intro conjI impI)
  show "Hash ops p = 0" if "elements p = []"
    using that by (simp add: Hash_def)
  show "Hash ops p = fnv64a (concat (map PutUint64
         (sort (map (p_Hash ops) (filter (\<lambda>c. \<not> p_IsUnassigned ops c) (elements p))))))"
    if "elements p \<noteq> []"
    using that by (rule Hash_sorted)
  show "Hash ops q = Hash ops p" if m: "mset (elements q) = mset (elements p)"
  proof -
    have e: "(elements q = []) = (elements p = [])"
      using m by (metis mset_zero_iff)
    show ?thesis
      using e sort_assigned_hashes_mset[OF m, of ops] by (simp add: Hash_def gathered_sort)
  qed
qed

theorem Hash_order_insensitive_witness:
  "elements (example_multi [3, 1, 2]) \<noteq> []
   \<and> mset (elements (example_multi [2, 3, 1])) = mset (elements (example_multi [3, 1, 2]))
   \<and> Hash example_ops (example_multi [2, 3, 1]) = Hash example_ops (example_multi [3, 1, 2])
   \<and> Hash example_ops (example_multi [3, 1, 2]) = fnv64a (concat (map PutUint64 [1, 2, 3]))
   \<and> elements (example_multi []) = []
   \<and> Hash example_ops (example_multi []) = 0"
proof -
  have m: "mset (elements (example_multi [2, 3, 1])) = mset (elements (example_multi [3, 1, 2]))"
    by (simp add: example_multi_def)
  have n: "elements (example_multi [3, 1, 2]) \<noteq> []"
    by (simp add: example_multi_def)
  have z: "elements (example_multi []) = []"
    by (simp add: example_multi_def)
  have s: "sort (map (p_Hash example_ops)
             (filter (\<lambda>c. \<not> p_IsUnassigned example_ops c) (elements (example_multi [3, 1, 2]))))
           = [1, 2, 3]"
    by (simp add: example_multi_def example_ops_def word_le_nat_alt)
  show ?thesis
    using Hash_order_insensitive[of "example_multi [3, 1, 2]" example_ops "example_multi [2, 3, 1]"]
      Hash_order_insensitive[of "example_multi []" example_ops "example_multi []"]
      m n z s
    by simp
qed

subsection \<open>The relational predicates\<close>

text \<open>
  C5, as amended. On a multi-valued property each of \<open>StartsWith\<close>, \<open>EndsWith\<close>, \<open>Contains\<close>,
  \<open>GreaterThan\<close> and \<open>LessThan\<close> returns false and an error of kind internal, whose message is
  "incompatible operation".
\<close>

theorem relational_predicates_internal_error:
  "StartsWith p str = (False, Some (Error Internal ''incompatible operation''))
   \<and> EndsWith p str = (False, Some (Error Internal ''incompatible operation''))
   \<and> Contains p str = (False, Some (Error Internal ''incompatible operation''))
   \<and> GreaterThan p v = (False, Some (Error Internal ''incompatible operation''))
   \<and> LessThan p v = (False, Some (Error Internal ''incompatible operation''))"
  by (simp add: StartsWith_def EndsWith_def Contains_def GreaterThan_def LessThan_def
      errIncompatibleOp_def)

text \<open>
  C5, as stated, fails: the kind of the error is not \<open>incompatibleOperation\<close>, for each of the
  five predicates, here on a property with the elements 1 and 2.
\<close>

theorem relational_predicates_not_incompatibleOperation:
  "error_kind_of (StartsWith (example_multi [1, 2]) ''a'') \<noteq> Some IncompatibleOperation
   \<and> error_kind_of (EndsWith (example_multi [1, 2]) ''a'') \<noteq> Some IncompatibleOperation
   \<and> error_kind_of (Contains (example_multi [1, 2]) ''a'') \<noteq> Some IncompatibleOperation
   \<and> error_kind_of (GreaterThan (example_multi [1, 2]) (GoOther (1::nat))) \<noteq> Some IncompatibleOperation
   \<and> error_kind_of (LessThan (example_multi [1, 2]) (GoOther (1::nat))) \<noteq> Some IncompatibleOperation
   \<and> error_kind_of (StartsWith (example_multi [1, 2]) ''a'') = Some Internal"
  by (simp add: StartsWith_def EndsWith_def Contains_def GreaterThan_def LessThan_def
      errIncompatibleOp_def)

subsection \<open>Add\<close>









subsection \<open>ChildAtIndex\<close>

lemma ChildAtIndex_in_range:
  "0 \<le> i \<Longrightarrow> i < CountChildren p \<Longrightarrow> ChildAtIndex p (GoInt i) = Ok (Some (elements p ! nat i))"
  by (simp add: ChildAtIndex_def CountChildren_def)

lemma ChildAtIndex_nil:
  "(\<forall>i. idx \<noteq> GoInt i) \<or> (\<exists>i. idx = GoInt i \<and> CountChildren p \<le> i) \<Longrightarrow>
   ChildAtIndex p idx = Ok None"
  by (cases idx) (auto simp: ChildAtIndex_def CountChildren_def)

lemma ChildAtIndex_negative: "i < 0 \<Longrightarrow> ChildAtIndex p (GoInt i) = Panic IndexOutOfRange"
  by (simp add: ChildAtIndex_def)

text \<open>
  C10 fails on the code: with the index \<open>-1\<close> \<open>ChildAtIndex\<close> passes the bounds check
  \<open>i >= len(p.elements)\<close> and reads \<open>p.elements[-1]\<close>, which panics; it does not return nil.
  Here on a property with the elements 1 and 2, and on one without elements.
\<close>

theorem ChildAtIndex_negative_panics:
  "ChildAtIndex (example_multi [1, 2]) (GoInt (- 1) :: nat go_value) = Panic IndexOutOfRange
   \<and> ChildAtIndex (example_multi []) (GoInt (- 1) :: nat go_value) = Panic IndexOutOfRange
   \<and> ChildAtIndex (example_multi [1, 2]) (GoInt 1 :: nat go_value) = Ok (Some 2)
   \<and> ChildAtIndex (example_multi [1, 2]) (GoInt 2 :: nat go_value) = Ok None
   \<and> ChildAtIndex (example_multi [1, 2]) (GoOther 0) = Ok None"
  by (simp add: ChildAtIndex_def example_multi_def)


section \<open>Theorems: the encoding of strings\<close>

subsection \<open>The decoder\<close>

lemma accept_lo_ge: "0x80 \<le> accept_lo s0"
  by (simp add: accept_lo_def)

lemma accept_hi_le: "accept_hi s0 \<le> 0xBF"
  by (simp add: accept_hi_def)

lemma in_accept_ge: "\<not> (s1 < accept_lo s0) \<Longrightarrow> 0x80 \<le> s1"
  using accept_lo_ge[of s0] by (simp add: not_less)

lemma in_accept_continuation:
  "\<not> (s1 < accept_lo s0 \<or> accept_hi s0 < s1) \<Longrightarrow> continuation s1"
  using accept_lo_ge[of s0] accept_hi_le[of s0]
  by (auto simp: not_less continuation_def intro: order_trans)

lemma Decode_valid_bytes:
  assumes "DecodeRuneInString (b # rest) = (c, sz)" and "0x80 \<le> b" and "\<not> (c = RuneError \<and> sz = 1)"
  shows "\<forall>x\<in>set (take sz (b # rest)). 0x80 \<le> x"
proof - 
  consider (one) "rest = []" | (two) s1 where "rest = [s1]" | (three) s1 s2 where "rest = [s1, s2]" 
    | (more) s1 s2 s3 r where "rest = s1 # s2 # s3 # r"
    by (metis list.exhaust)
  then show ?thesis
  proof cases
    case one
    then show ?thesis using assms by (auto simp: DecodeRuneInString.simps rune_width_def split: if_splits)
  next
    case two
    then show ?thesis using assms
      by (auto simp: DecodeRuneInString.simps rune_width_def continuation_def split: if_splits dest: in_accept_ge)
  next
    case three
    then show ?thesis using assms
      by (auto simp: DecodeRuneInString.simps rune_width_def continuation_def split: if_splits dest: in_accept_ge)
  next
    case more
    then show ?thesis using assms
      by (auto simp: DecodeRuneInString.simps rune_width_def continuation_def split: if_splits dest: in_accept_ge)
  qed
qed

lemma take_in_prefix: "n \<le> length xs \<Longrightarrow> take n (xs @ ys) = take n xs"
  by simp

lemma drop_in_prefix: "n \<le> length xs \<Longrightarrow> drop n (xs @ ys) = drop n xs @ ys"
  by simp

text \<open>A byte that is no continuation byte ends the encoding before it.\<close>

lemma Decode_separator:
  assumes "\<not> continuation b"
  shows "DecodeRuneInString ((x # xs) @ b # ys) = DecodeRuneInString (x # xs)"
proof - 
  have nb: "\<And>s0. b < accept_lo s0 \<or> accept_hi s0 < b"
    using assms in_accept_continuation by blast
  consider (one) "xs = []" | (two) s1 where "xs = [s1]" | (three) s1 s2 where "xs = [s1, s2]" 
    | (more) s1 s2 s3 r where "xs = s1 # s2 # s3 # r"
    by (metis list.exhaust)
  then show ?thesis
  proof cases
    case one
    then show ?thesis using assms nb[of x]
      by (simp add: DecodeRuneInString.simps rune_width_def)
  next
    case two
    then show ?thesis using assms
      by (simp add: DecodeRuneInString.simps rune_width_def)
  next
    case three
    then show ?thesis using assms
      by (simp add: DecodeRuneInString.simps rune_width_def)
  next
    case more
    then show ?thesis
      by (simp add: DecodeRuneInString.simps rune_width_def)
  qed
qed

subsection \<open>The encoding, unit by unit\<close>

lemma escaped_Cons_ascii: "b < 0x80 \<Longrightarrow> spec_escaped (b # rest) = spec_escape_ascii b @ spec_escaped rest"
  by simp

lemma escaped_Cons_multi:
  "\<not> b < 0x80 \<Longrightarrow> DecodeRuneInString (b # rest) = (c, sz) \<Longrightarrow>
   spec_escaped (b # rest) =
     (if c = RuneError \<and> sz = 1 then 0x5C # bytes ''ufffd'' @ spec_escaped rest
      else if c = 0x2028 then 0x5C # bytes ''u2028'' @ spec_escaped (drop sz (b # rest))
      else if c = 0x2029 then 0x5C # bytes ''u2029'' @ spec_escaped (drop sz (b # rest))
      else take sz (b # rest) @ spec_escaped (drop sz (b # rest)))"
  by simp

declare spec_escaped.simps [simp del]

lemma escaped_Nil: "spec_escaped [] = []"
  by (simp add: spec_escaped.simps)

lemma escaped_split:
  assumes "\<not> continuation b"
  shows "spec_escaped (xs @ b # ys) = spec_escaped xs @ spec_escaped (b # ys)"
proof (induction xs rule: spec_escaped.induct)
  case 1
  show ?case by (simp add: escaped_Nil)
next
  case (2 x rest)
  show ?case
  proof (cases "x < 0x80")
    case True
    then show ?thesis using 2(1) by (simp add: escaped_Cons_ascii)
  next
    case False
    obtain c sz where d: "DecodeRuneInString (x # rest) = (c, sz)" by (cases "DecodeRuneInString (x # rest)")
    have d': "DecodeRuneInString (x # rest @ b # ys) = (c, sz)"
      using Decode_separator[OF assms, of x rest ys] d by simp
    have le: "sz \<le> length (x # rest)" using DecodeRuneInString_size_le[of "x # rest"] d by simp
    have tk: "take sz (x # rest @ b # ys) = take sz (x # rest)"
      using take_in_prefix[OF le, of "b # ys"] by (simp only: append_Cons)
    have dr: "drop sz (x # rest @ b # ys) = drop sz (x # rest) @ b # ys"
      using drop_in_prefix[OF le, of "b # ys"] by (simp only: append_Cons)
    have ih1: "c = RuneError \<and> sz = 1 \<Longrightarrow> spec_escaped (rest @ b # ys) = spec_escaped rest @ spec_escaped (b # ys)"
      using 2(2)[OF False d[symmetric]] by simp
    have ih2: "\<not> (c = RuneError \<and> sz = 1) \<Longrightarrow>
        spec_escaped (drop sz (x # rest) @ b # ys) = spec_escaped (drop sz (x # rest)) @ spec_escaped (b # ys)"
      using 2(3)[OF False d[symmetric]] 2(4)[OF False d[symmetric]] 2(5)[OF False d[symmetric]]
      by blast
    have "spec_escaped ((x # rest) @ b # ys) = spec_escaped (x # rest @ b # ys)" by simp
    also have "\<dots> = spec_escaped (x # rest) @ spec_escaped (b # ys)"
      unfolding escaped_Cons_multi[OF False d'] escaped_Cons_multi[OF False d] tk dr
      using ih1 ih2 by simp
    finally show ?thesis .
  qed
qed


subsection \<open>The loop of appendString computes the encoding\<close>

lemma WriteString_Nil: "WriteString s [] = s"
  by (simp add: WriteString_def)

lemma WriteString_WriteString: "WriteString (WriteString s a) b = WriteString s (a @ b)"
  by (simp add: WriteString_def)

lemma WriteByte_WriteString: "WriteByte s c = WriteString s [c]"
  by (simp add: WriteString_def WriteByte_def)

lemma flush_WriteString: "start \<le> i \<Longrightarrow> flush s v start i = WriteString s (byte_slice v start i)"
  by (auto simp: flush_def byte_slice_def WriteString_Nil)

lemma slice_extend:
  "start \<le> i \<Longrightarrow> i + n \<le> length v \<Longrightarrow> byte_slice v start (i + n) = byte_slice v start i @ take n (drop i v)"
proof -
  assume a: "start \<le> i" "i + n \<le> length v"
  have "take (i + n - start) (drop start v) = take ((i - start) + n) (drop start v)"
    using a by simp
  also have "\<dots> = take (i - start) (drop start v) @ take n (drop (i - start) (drop start v))"
    by (simp add: take_add)
  also have "drop (i - start) (drop start v) = drop i v" using a by simp
  finally show ?thesis by (simp add: byte_slice_def)
qed

lemma slice_same: "byte_slice v i i = []"
  by (simp add: byte_slice_def)

lemma escape_byte_escape_ascii:
  "b < 0x80 \<Longrightarrow> \<not> htmlSafeSet b \<Longrightarrow>
   escape_byte (WriteByte s 0x5C) b = WriteString s (spec_escape_ascii b)"
  by (auto simp: escape_byte_def spec_escape_ascii_def htmlSafeSet_def WriteByte_def WriteString_def
      bytes_def not_le not_less)

lemma escape_ascii_safe: "htmlSafeSet b \<Longrightarrow> spec_escape_ascii b = [b]"
  by (auto simp: spec_escape_ascii_def htmlSafeSet_def)


declare appendString_loop.simps [simp del]

lemma hex_8: "hex ! unat ((0x2028 :: rune) AND 0xF) = 0x38"
  by (simp add: hex_def bytes_def)

lemma hex_9: "hex ! unat ((0x2029 :: rune) AND 0xF) = 0x39"
  by (simp add: hex_def bytes_def)

lemma appendString_loop_escaped:
  "start \<le> i \<Longrightarrow> i \<le> length v \<Longrightarrow>
   appendString_loop s v i start = WriteString s (byte_slice v start i @ spec_escaped (drop i v))"
proof (induction s v i start rule: appendString_loop.induct)
  case (1 s v i start)
  note prems = "1.prems" and IH = "1.IH"
  show ?case
  proof (cases "i < length v")
    case False
    then have il: "i = length v" using prems(2) by simp
    have "byte_slice v start i = drop start v" using il by (simp add: byte_slice_def)
    then show ?thesis using il
      by (subst appendString_loop.simps) (simp add: escaped_Nil WriteString_Nil)
  next
    case True
    define b where "b = v ! i"
    define rest where "rest = drop (Suc i) v"
    have dv: "drop i v = b # rest" using True by (simp add: b_def rest_def Cons_nth_drop_Suc)
    have one: "byte_slice v start (Suc i) = byte_slice v start i @ [b]"
      using slice_extend[of start i 1 v] True prems(1) dv by simp
    show ?thesis
    proof (cases "b < RuneSelf")
      case ascii: True
      then have a80: "b < 0x80" by (simp add: RuneSelf_def)
      show ?thesis
      proof (cases "htmlSafeSet b")
        case True
        have ih: "appendString_loop s v (i + 1) start
                    = WriteString s (byte_slice v start (i + 1) @ spec_escaped (drop (i + 1) v))"
          using IH(1)[OF \<open>i < length v\<close> b_def ascii True] prems(1) \<open>i < length v\<close>
          by simp
        show ?thesis
          using ih True ascii \<open>i < length v\<close>
          by (subst appendString_loop.simps)
             (simp add: b_def[symmetric] one dv rest_def[symmetric] escaped_Cons_ascii[OF a80] escape_ascii_safe)
      next
        case False
        let ?s' = "escape_byte (WriteByte (flush s v start i) 0x5C) b"
        have ih: "appendString_loop ?s' v (i + 1) (i + 1)
                    = WriteString ?s' (byte_slice v (i + 1) (i + 1) @ spec_escaped (drop (i + 1) v))"
          using IH(2)[OF \<open>i < length v\<close> b_def ascii False] \<open>i < length v\<close>
          by (simp add: b_def)
        have s': "?s' = WriteString s (byte_slice v start i @ spec_escape_ascii b)"
          using escape_byte_escape_ascii[OF a80 False] flush_WriteString[OF prems(1)]
          by (simp add: WriteString_WriteString)
        show ?thesis
          using ih False ascii \<open>i < length v\<close>
          by (subst appendString_loop.simps)
             (simp add: b_def[symmetric] s' dv rest_def[symmetric] escaped_Cons_ascii[OF a80]
                slice_same WriteString_WriteString)
      qed
    next
      case multi: False
      then have n80: "\<not> b < 0x80" by (simp add: RuneSelf_def)
      obtain c sz where d: "DecodeRuneInString (drop i v) = (c, sz)"
        by (cases "DecodeRuneInString (drop i v)")
      have d2: "DecodeRuneInString (b # rest) = (c, sz)" using d dv by simp
      have szle: "i + sz \<le> length v"
        using DecodeRuneInString_size_le[of "drop i v"] d True by simp
      have ext: "byte_slice v start (i + sz) = byte_slice v start i @ take sz (b # rest)"
        using slice_extend[OF prems(1) szle] dv by simp
      have drp: "drop (i + sz) v = drop sz (b # rest)"
        using dv by (metis add.commute drop_drop)
      show ?thesis
      proof (cases "c = RuneError \<and> sz = 1")
        case True
        let ?s' = "WriteString (flush s v start i) (0x5C # bytes ''ufffd'')"
        have ih: "appendString_loop ?s' v (i + sz) (i + sz)
                    = WriteString ?s' (byte_slice v (i + sz) (i + sz) @ spec_escaped (drop (i + sz) v))"
          using IH(3)[OF \<open>i < length v\<close> b_def multi d[symmetric] True] szle
          by simp
        show ?thesis
          using ih True multi \<open>i < length v\<close> d
          by (subst appendString_loop.simps)
             (simp add: b_def[symmetric] dv rest_def[symmetric] escaped_Cons_multi[OF n80 d2]
                slice_same WriteString_WriteString flush_WriteString[OF prems(1)])
      next
        case nerr: False
        show ?thesis
        proof (cases "c = 0x2028 \<or> c = 0x2029")
          case True
          let ?s' = "WriteByte (WriteString (flush s v start i) (0x5C # bytes ''u202''))
                       (hex ! unat (c AND 0xF))"
          have ih: "appendString_loop ?s' v (i + sz) (i + sz)
                    = WriteString ?s' (byte_slice v (i + sz) (i + sz) @ spec_escaped (drop (i + sz) v))"
            using IH(4)[OF \<open>i < length v\<close> b_def multi d[symmetric] nerr True] szle
            by simp
          have s': "?s' = WriteString s (byte_slice v start i @
                      (if c = 0x2028 then 0x5C # bytes ''u2028'' else 0x5C # bytes ''u2029''))"
            using True hex_8 hex_9 flush_WriteString[OF prems(1)]
            by (auto simp: WriteString_WriteString WriteByte_WriteString bytes_def)
          show ?thesis
            using ih True nerr multi \<open>i < length v\<close> d
            by (subst appendString_loop.simps)
               (auto simp: b_def[symmetric] s' drp dv escaped_Cons_multi[OF n80 d2]
                  slice_same WriteString_WriteString)
        next
          case False
          have ih: "appendString_loop s v (i + sz) start
                    = WriteString s (byte_slice v start (i + sz) @ spec_escaped (drop (i + sz) v))"
            using IH(5)[OF \<open>i < length v\<close> b_def multi d[symmetric] nerr False] szle prems(1)
            by simp
          show ?thesis
            using ih False nerr multi \<open>i < length v\<close> d
            by (subst appendString_loop.simps)
               (auto simp: b_def[symmetric] ext drp dv escaped_Cons_multi[OF n80 d2])
        qed
      qed
    qed
  qed
qed

lemma appendString_escaped:
  "appendString s v = WriteString s (0x22 # spec_escaped v @ [0x22])"
  using appendString_loop_escaped[of 0 0 v "WriteByte s 0x22"]
  by (simp add: appendString_def slice_same WriteByte_WriteString WriteString_WriteString)


subsection \<open>Properties of the encoding\<close>

lemma hex_digit_ge: "k < 16 \<Longrightarrow> 0x30 \<le> hex ! k"
proof -
  have "list_all (\<lambda>x. 0x30 \<le> x) hex" by (simp add: hex_def bytes_def)
  moreover have "length hex = 16" by (simp add: hex_def bytes_def)
  ultimately show "k < 16 \<Longrightarrow> 0x30 \<le> hex ! k" by (simp add: list_all_length)
qed

lemma unat_high_nibble: "unat (drop_bit 4 (b :: byte)) < 16"
proof -
  have "unat b < 256" using unsigned_less[of b, where ?'a = nat] by simp
  then have "unat b div 16 < 16" by simp
  then show ?thesis by (simp add: drop_bit_eq_div unat_div)
qed

lemma unat_low_nibble: "unat ((b :: byte) AND 0xF) < 16"
proof -
  have "b AND 0xF \<le> 0xF" by (rule word_and_le1)
  then show ?thesis by (simp add: word_le_nat_alt)
qed

lemma escape_ascii_printable: "\<forall>x\<in>set (spec_escape_ascii b). 0x20 \<le> x"
proof -
  have h1: "(0x20 :: byte) \<le> hex ! unat (drop_bit 4 b)"
    using hex_digit_ge[OF unat_high_nibble[of b]] by (auto intro: order_trans[of "0x20::byte" "0x30"])
  have h2: "(0x20 :: byte) \<le> hex ! unat (b AND 0xF)"
    using hex_digit_ge[OF unat_low_nibble[of b]] by (auto intro: order_trans[of "0x20::byte" "0x30"])
  show ?thesis using h1 h2 by (auto simp: spec_escape_ascii_def not_less)
qed

lemma escaped_printable: "\<forall>x\<in>set (spec_escaped v). 0x20 \<le> x"
proof (induction v rule: spec_escaped.induct)
  case 1
  show ?case by (simp add: escaped_Nil)
next
  case (2 b rest)
  show ?case
  proof (cases "b < 0x80")
    case True
    then show ?thesis using 2(1) escape_ascii_printable[of b] by (auto simp: escaped_Cons_ascii)
  next
    case False
    obtain c sz where d: "DecodeRuneInString (b # rest) = (c, sz)"
      by (cases "DecodeRuneInString (b # rest)")
    have ih1: "c = RuneError \<and> sz = 1 \<Longrightarrow> \<forall>x\<in>set (spec_escaped rest). 0x20 \<le> x"
      using 2(2)[OF False d[symmetric]] by simp
    have ih2: "\<not> (c = RuneError \<and> sz = 1) \<Longrightarrow> \<forall>x\<in>set (spec_escaped (drop sz (b # rest))). 0x20 \<le> x"
      using 2(3)[OF False d[symmetric]] 2(4)[OF False d[symmetric]] 2(5)[OF False d[symmetric]]
      by blast
    have raw: "\<not> (c = RuneError \<and> sz = 1) \<Longrightarrow> \<forall>x\<in>set (take sz (b # rest)). 0x20 \<le> x"
    proof -
      assume "\<not> (c = RuneError \<and> sz = 1)"
      then have "\<forall>x\<in>set (take sz (b # rest)). 0x80 \<le> x"
        using Decode_valid_bytes[OF d] False by (simp add: not_less)
      then show ?thesis by (auto intro: order_trans[of "0x20::byte" "0x80"])
    qed
    show ?thesis
      unfolding escaped_Cons_multi[OF False d]
      using ih1 ih2 raw by (auto simp: bytes_def)
  qed
qed

lemma escape_ascii_control:
  "b < 0x20 \<Longrightarrow>
   spec_escape_ascii b =
     (if b = 0x0A then [0x5C, 0x6E]
      else if b = 0x0D then [0x5C, 0x72]
      else if b = 0x09 then [0x5C, 0x74]
      else [0x5C, 0x75, 0x30, 0x30, hex ! unat (drop_bit 4 b), hex ! unat (b AND 0xF)])"
  by (auto simp: spec_escape_ascii_def)

lemma control_not_continuation: "b < 0x80 \<Longrightarrow> \<not> continuation b"
  by (simp add: continuation_def not_le)

lemma escaped_control:
  assumes "b < 0x20"
  shows "spec_escaped (xs @ b # ys) = spec_escaped xs @ spec_escape_ascii b @ spec_escaped ys"
proof -
  have a: "b < 0x80" using assms by (rule less_trans) simp
  show ?thesis
    using escaped_split[OF control_not_continuation[OF a], of xs ys]
    by (simp add: escaped_Cons_ascii[OF a])
qed

lemma Decode_2028: "DecodeRuneInString (0xE2 # 0x80 # 0xA8 # ys) = (0x2028, 3)"
  by (simp add: DecodeRuneInString.simps rune_width_def accept_lo_def accept_hi_def
      continuation_def rune3_def)

lemma Decode_2029: "DecodeRuneInString (0xE2 # 0x80 # 0xA9 # ys) = (0x2029, 3)"
  by (simp add: DecodeRuneInString.simps rune_width_def accept_lo_def accept_hi_def
      continuation_def rune3_def)

lemma escaped_2028:
  "spec_escaped (xs @ [0xE2, 0x80, 0xA8] @ ys) = spec_escaped xs @ 0x5C # bytes ''u2028'' @ spec_escaped ys"
proof -
  have "\<not> continuation 0xE2" by (simp add: continuation_def)
  then have "spec_escaped (xs @ 0xE2 # (0x80 # 0xA8 # ys)) = spec_escaped xs @ spec_escaped (0xE2 # 0x80 # 0xA8 # ys)"
    by (rule escaped_split)
  also have "spec_escaped (0xE2 # 0x80 # 0xA8 # ys) = 0x5C # bytes ''u2028'' @ spec_escaped ys"
    by (subst escaped_Cons_multi[OF _ Decode_2028]) (simp_all add: RuneError_def)
  finally show ?thesis by simp
qed

lemma escaped_2029:
  "spec_escaped (xs @ [0xE2, 0x80, 0xA9] @ ys) = spec_escaped xs @ 0x5C # bytes ''u2029'' @ spec_escaped ys"
proof -
  have "\<not> continuation 0xE2" by (simp add: continuation_def)
  then have "spec_escaped (xs @ 0xE2 # (0x80 # 0xA9 # ys)) = spec_escaped xs @ spec_escaped (0xE2 # 0x80 # 0xA9 # ys)"
    by (rule escaped_split)
  also have "spec_escaped (0xE2 # 0x80 # 0xA9 # ys) = 0x5C # bytes ''u2029'' @ spec_escaped ys"
    by (subst escaped_Cons_multi[OF _ Decode_2029]) (simp_all add: RuneError_def)
  finally show ?thesis by simp
qed

lemma escaped_invalid:
  "0x80 \<le> b \<Longrightarrow> DecodeRuneInString (b # rest) = (RuneError, 1) \<Longrightarrow>
   spec_escaped (b # rest) = 0x5C # bytes ''ufffd'' @ spec_escaped rest"
  by (subst escaped_Cons_multi[of b rest RuneError 1]) (simp_all add: not_less)

lemma escaped_example: "spec_escaped (bytes ''a'' @ [0xE2, 0x80, 0xA8] @ bytes ''b'') = bytes ''a'' @ 0x5C # bytes ''u2028b''"
proof -
  have a: "spec_escaped (bytes ''a'') = bytes ''a''"
    by (simp add: bytes_def escaped_Cons_ascii escaped_Nil spec_escape_ascii_def)
  have b: "spec_escaped (bytes ''b'') = bytes ''b''"
    by (simp add: bytes_def escaped_Cons_ascii escaped_Nil spec_escape_ascii_def)
  show ?thesis using escaped_2028[of "bytes ''a''" "bytes ''b''"] a b by (simp add: bytes_def)
qed


lemma escaped_invalid_inside:
  assumes "\<not> continuation b" and "0x80 \<le> b" and "DecodeRuneInString (b # rest) = (RuneError, 1)"
  shows "spec_escaped (xs @ b # rest) = spec_escaped xs @ 0x5C # bytes ''ufffd'' @ spec_escaped rest"
  using escaped_split[OF assms(1), of xs rest] escaped_invalid[OF assms(2) assms(3)] by simp

lemma appendString_printable: "\<forall>x\<in>set (buffer (appendString new_serializer v)). 0x20 \<le> x"
  using escaped_printable[of v]
  by (simp add: appendString_escaped WriteString_def new_serializer_def)

text \<open>
  C9. \<open>appendString\<close> writes, between two quotes, the encoding \<open>spec_escaped\<close> of its argument,
  and changes nothing else in the serializer.
  In that encoding a byte below \<open>0x20\<close>, wherever it stands, is replaced with its short form
  (\<open>\n\<close>, \<open>\r\<close>, \<open>\t\<close>) or with \<open>\u00XX\<close>; a byte at which the decoder finds no valid UTF-8
  encoding is replaced with the six bytes \<open>\ufffd\<close> (at the head of the string, and anywhere when the byte
  is not a continuation byte); the encodings of U+2028 and U+2029, wherever they stand, are
  replaced with the six bytes \<open>\u2028\<close> and \<open>\u2029\<close>. No byte below \<open>0x20\<close> is written, and the string \<open>a\<close>,
  U+2028, \<open>b\<close> is written as \<open>"a\u2028b"\<close>.
\<close>

theorem appendString_escapes:
  "appendString s v = WriteString s (0x22 # spec_escaped v @ [0x22])
   \<and> (b < 0x20 \<longrightarrow>
        spec_escaped (xs @ b # ys) =
          spec_escaped xs @
          (if b = 0x0A then [0x5C, 0x6E]
           else if b = 0x0D then [0x5C, 0x72]
           else if b = 0x09 then [0x5C, 0x74]
           else [0x5C, 0x75, 0x30, 0x30, hex ! unat (drop_bit 4 b), hex ! unat (b AND 0xF)]) @
          spec_escaped ys)
   \<and> (0x80 \<le> b \<and> DecodeRuneInString (b # ys) = (RuneError, 1) \<longrightarrow>
        spec_escaped (b # ys) = 0x5C # bytes ''ufffd'' @ spec_escaped ys
        \<and> (\<not> continuation b \<longrightarrow>
             spec_escaped (xs @ b # ys) = spec_escaped xs @ 0x5C # bytes ''ufffd'' @ spec_escaped ys))
   \<and> spec_escaped (xs @ [0xE2, 0x80, 0xA8] @ ys) = spec_escaped xs @ 0x5C # bytes ''u2028'' @ spec_escaped ys
   \<and> spec_escaped (xs @ [0xE2, 0x80, 0xA9] @ ys) = spec_escaped xs @ 0x5C # bytes ''u2029'' @ spec_escaped ys
   \<and> (\<forall>x\<in>set (buffer (appendString new_serializer v)). 0x20 \<le> x)
   \<and> buffer (appendString new_serializer (bytes ''a'' @ [0xE2, 0x80, 0xA8] @ bytes ''b''))
        = 0x22 # bytes ''a'' @ 0x5C # bytes ''u2028b'' @ [0x22]"
proof -
  have c1: "appendString s v = WriteString s (0x22 # spec_escaped v @ [0x22])"
    by (rule appendString_escaped)
  have c2: "b < 0x20 \<longrightarrow>
        spec_escaped (xs @ b # ys) =
          spec_escaped xs @
          (if b = 0x0A then [0x5C, 0x6E]
           else if b = 0x0D then [0x5C, 0x72]
           else if b = 0x09 then [0x5C, 0x74]
           else [0x5C, 0x75, 0x30, 0x30, hex ! unat (drop_bit 4 b), hex ! unat (b AND 0xF)]) @
          spec_escaped ys"
    using escaped_control[of b xs ys] escape_ascii_control[of b] by simp
  have c3: "0x80 \<le> b \<and> DecodeRuneInString (b # ys) = (RuneError, 1) \<longrightarrow>
        spec_escaped (b # ys) = 0x5C # bytes ''ufffd'' @ spec_escaped ys
        \<and> (\<not> continuation b \<longrightarrow>
             spec_escaped (xs @ b # ys) = spec_escaped xs @ 0x5C # bytes ''ufffd'' @ spec_escaped ys)"
    using escaped_invalid[of b ys] escaped_invalid_inside[of b ys xs] by blast
  have c7: "buffer (appendString new_serializer (bytes ''a'' @ [0xE2, 0x80, 0xA8] @ bytes ''b''))
        = 0x22 # bytes ''a'' @ 0x5C # bytes ''u2028b'' @ [0x22]"
    using escaped_example by (simp add: appendString_escaped WriteString_def new_serializer_def)
  show ?thesis
    using c1 c2 c3 escaped_2028[of xs ys] escaped_2029[of xs ys] appendString_printable[of v] c7
    by blast
qed

theorem appendString_escapes_witness:
  "(0x01 :: byte) < 0x20
   \<and> spec_escaped (bytes ''a'' @ 0x01 # bytes ''b'') = bytes ''a'' @ 0x5C # bytes ''u0001'' @ bytes ''b''
   \<and> (0x80 :: byte) \<le> 0xFF \<and> DecodeRuneInString (0xFF # bytes ''b'') = (RuneError, 1)
   \<and> \<not> continuation 0xFF
   \<and> spec_escaped (0xFF # bytes ''b'') = 0x5C # bytes ''ufffdb''
   \<and> spec_escaped (bytes ''a'' @ 0xFF # bytes ''b'') = bytes ''a'' @ 0x5C # bytes ''ufffdb''
   \<and> buffer (appendString new_serializer [0x0A, 0x1F])
        = 0x22 # 0x5C # bytes ''n'' @ 0x5C # bytes ''u001f'' @ [0x22]
   \<and> list_all (\<lambda>x. 0x20 \<le> x) (buffer (appendString new_serializer [0x0A, 0x1F]))"
proof -
  have a: "spec_escaped (bytes ''a'') = bytes ''a''"
    by (simp add: bytes_def escaped_Cons_ascii escaped_Nil spec_escape_ascii_def)
  have b: "spec_escaped (bytes ''b'') = bytes ''b''"
    by (simp add: bytes_def escaped_Cons_ascii escaped_Nil spec_escape_ascii_def)
  have h: "hex ! unat (drop_bit 4 (1 :: byte)) = 0x30" "hex ! unat ((1 :: byte) AND 0xF) = 0x31"
    by (simp_all add: hex_def bytes_def)
  have d: "DecodeRuneInString (0xFF # bytes ''b'') = (RuneError, 1)"
    by (simp add: DecodeRuneInString.simps)
  have n: "\<not> continuation 0xFF" by (simp add: continuation_def)
  have e: "spec_escaped [0x0A, 0x1F] = 0x5C # bytes ''n'' @ 0x5C # bytes ''u001f''"
    by (simp add: bytes_def escaped_Cons_ascii escaped_Nil spec_escape_ascii_def hex_def)
  show ?thesis
    using appendString_escapes[of new_serializer "[0x0A, 0x1F]" "0x01" "bytes ''a''" "bytes ''b''"]
      appendString_escapes[of new_serializer "[0x0A, 0x1F]" "0xFF" "bytes ''a''" "bytes ''b''"]
      a b h d n e
    by (simp add: new_serializer_def bytes_def list_all_iff WriteString_def)
qed


section \<open>Theorems: the encoding of decimals\<close>

lemma clean_exponent_strips:
  "clean_exponent (m @ [0x65, 0x2D, 0x30, d]) = m @ [0x65, 0x2D, d]"
  by (simp add: clean_exponent_def nth_append list_update_append)

lemma appendFloat_finite:
  "\<not> IsInf v \<Longrightarrow> \<not> IsNaN v \<Longrightarrow>
   appendFloat ext s v =
     Ok (WriteString s
          (if Abs v \<noteq> 0 \<and> (Abs v < float_1e_minus_6 \<or> float_1e21 \<le> Abs v)
           then clean_exponent (AppendFloat ext v 0x65)
           else AppendFloat ext v 0x66))"
  by (simp add: appendFloat_def float_format_def Let_def)

lemma appendFloat_not_finite:
  "IsInf v \<or> IsNaN v \<Longrightarrow>
   appendFloat ext s v = Panic (PanicError (Error Internal ''%f is not a valid decimal''))"
  by (simp add: appendFloat_def)

text \<open>
  C8, as amended. For a float that is neither infinite nor NaN and is not zero, the
  exponent format is used when its absolute value is below \<open>1e-6\<close> or at least \<open>1e21\<close>, and
  then \<open>e-0d\<close> at the end of the formatter's output becomes \<open>e-d\<close>; the fixed format is used
  otherwise, and for the two zeros. For an infinite float and for NaN, \<open>appendFloat\<close> writes
  nothing and panics with an error of kind internal.
\<close>

theorem appendFloat_notation:
  "(\<not> IsInf v \<and> \<not> IsNaN v \<and> Abs v \<noteq> 0 \<and> (Abs v < float_1e_minus_6 \<or> float_1e21 \<le> Abs v) \<longrightarrow>
      appendFloat ext s v = Ok (WriteString s (clean_exponent (AppendFloat ext v 0x65))))
   \<and> (\<not> IsInf v \<and> \<not> IsNaN v \<and> (Abs v = 0 \<or> (float_1e_minus_6 \<le> Abs v \<and> Abs v < float_1e21)) \<longrightarrow>
      appendFloat ext s v = Ok (WriteString s (AppendFloat ext v 0x66)))
   \<and> clean_exponent (m @ [0x65, 0x2D, 0x30, d]) = m @ [0x65, 0x2D, d]
   \<and> (IsInf v \<or> IsNaN v \<longrightarrow>
      appendFloat ext s v = Panic (PanicError (Error Internal ''%f is not a valid decimal''))
      \<and> kind (Error Internal ''%f is not a valid decimal'') = Internal)"
  using appendFloat_finite[of v ext s] appendFloat_not_finite[of v ext s] clean_exponent_strips[of m d]
  by (auto simp: not_less)

theorem appendFloat_notation_witness:
  "\<not> IsInf 0x3E19C511DC3A41DF \<and> \<not> IsNaN 0x3E19C511DC3A41DF
   \<and> Abs 0x3E19C511DC3A41DF \<noteq> 0 \<and> Abs 0x3E19C511DC3A41DF < float_1e_minus_6
   \<and> AppendFloat example_ext 0x3E19C511DC3A41DF 0x65 = bytes ''1.5'' @ [0x65, 0x2D, 0x30, 0x39]
   \<and> appendFloat example_ext new_serializer 0x3E19C511DC3A41DF
        = Ok (WriteString new_serializer (bytes ''1.5e-9''))
   \<and> \<not> IsInf 0x3FF8000000000000 \<and> \<not> IsNaN 0x3FF8000000000000
   \<and> float_1e_minus_6 \<le> Abs 0x3FF8000000000000 \<and> Abs 0x3FF8000000000000 < float_1e21
   \<and> appendFloat example_ext new_serializer 0x3FF8000000000000
        = Ok (WriteString new_serializer [0x66])
   \<and> IsInf 0xFFF0000000000000 \<and> IsNaN 0x7FF8000000000001
   \<and> appendFloat example_ext new_serializer 0xFFF0000000000000
        = Panic (PanicError (Error Internal ''%f is not a valid decimal''))
   \<and> appendFloat example_ext new_serializer 0x7FF8000000000001
        = Panic (PanicError (Error Internal ''%f is not a valid decimal''))"
  using appendFloat_notation[of "0x3E19C511DC3A41DF" example_ext new_serializer "bytes ''1.5''" "0x39"]
    appendFloat_notation[of "0x3FF8000000000000" example_ext new_serializer "[]" "0x39"]
    appendFloat_notation[of "0xFFF0000000000000" example_ext new_serializer "[]" "0x39"]
    appendFloat_notation[of "0x7FF8000000000001" example_ext new_serializer "[]" "0x39"]
  by (simp add: IsInf_def IsNaN_def Abs_def float_1e_minus_6_def float_1e21_def example_ext_def
      bytes_def)

text \<open>
  C8, as stated, fails at zero: zero is neither infinite nor NaN and its absolute value is
  below \<open>1e-6\<close>, yet the format chosen is \<open>'f'\<close> (fixed), not \<open>'e'\<close>; the same holds for the
  negative zero.
\<close>

theorem appendFloat_zero_is_fixed:
  "\<not> IsInf 0 \<and> \<not> IsNaN 0 \<and> Abs 0 < float_1e_minus_6
   \<and> float_format 0 \<noteq> 0x65 \<and> float_format 0 = 0x66
   \<and> appendFloat example_ext new_serializer 0 = Ok (WriteString new_serializer [0x66])
   \<and> \<not> IsInf 0x8000000000000000 \<and> \<not> IsNaN 0x8000000000000000
   \<and> Abs 0x8000000000000000 < float_1e_minus_6
   \<and> float_format 0x8000000000000000 = 0x66"
  by (simp add: IsInf_def IsNaN_def Abs_def float_1e_minus_6_def float_format_def appendFloat_def
      example_ext_def)


section \<open>Theorems: the serializer\<close>

lemma and_then_Ok_iff: "and_then r f = Ok y \<longleftrightarrow> (\<exists>x. r = Ok x \<and> f x = Ok y)"
  by (cases r) (simp_all add: and_then_def)

lemma and_then_Ok: "and_then (Ok x) f = f x"
  by (simp add: and_then_def)

lemma and_then_assoc: "and_then (and_then r f) g = and_then r (\<lambda>x. and_then (f x) g)"
  by (cases r) (simp_all add: and_then_def)

subsection \<open>Write-only properties\<close>

lemma ShouldVisit_writeOnly:
  "Mutability (Attribute p) = MutabilityWriteOnly \<Longrightarrow> ShouldVisit ext s p = Ok False"
  by (simp add: ShouldVisit_def)

lemma visit_property_writeOnly:
  "Mutability (Attribute p) = MutabilityWriteOnly \<Longrightarrow> visit_property ext s p = Ok s"
  by (cases p) (simp_all add: ShouldVisit_def and_then_Ok)

lemma visit_children_append:
  "visit_children ext s (xs @ ys) = and_then (visit_children ext s xs) (\<lambda>s. visit_children ext s ys)"
  by (induction xs arbitrary: s) (simp_all add: and_then_Ok and_then_assoc)

lemma visit_children_writeOnly:
  assumes "Mutability (Attribute p) = MutabilityWriteOnly"
  shows "visit_children ext s (xs @ p # ys) = visit_children ext s (xs @ ys)"
proof -
  have "visit_children ext s' (p # ys) = visit_children ext s' ys" for s'
    using visit_property_writeOnly[OF assms] by (simp add: and_then_Ok)
  then show ?thesis by (simp add: visit_children_append)
qed

subsection \<open>Options\<close>

lemma ShouldVisit_no_family:
  "includeFamily s = None \<Longrightarrow> excludeFamily s = None \<Longrightarrow>
   ShouldVisit ext s p = Ok (default_returned p)"
  by (cases "Returned (Attribute p)") (auto simp: ShouldVisit_def default_returned_def Let_def)

lemma same_families_refl: "same_families s s"
  by (simp add: same_families_def)

lemma same_families_trans: "same_families s t \<Longrightarrow> same_families t u \<Longrightarrow> same_families s u"
  by (simp add: same_families_def)

lemma same_families_WriteString: "same_families s (WriteString s b)"
  by (simp add: same_families_def WriteString_def)

lemma same_families_WriteByte: "same_families s (WriteByte s b)"
  by (simp add: same_families_def WriteByte_def)

lemma increment_index_families: "increment_index s = Ok s' \<Longrightarrow> same_families s s'"
  by (auto simp: increment_index_def current_def same_families_def split: if_splits)

lemma typed_literal_families: "typed_literal ext s t r = Ok s' \<Longrightarrow> same_families s s'"
  by (auto simp: typed_literal_def appendString_escaped appendInteger_def appendFloat_def Let_def
      appendBoolean_def same_families_WriteString
      split: if_splits option.splits raw.splits)

lemma Visit_families: "Visit ext s p = Ok s' \<Longrightarrow> same_families s s'"
  by (auto simp: Visit_def and_then_Ok_iff Let_def appendPropertyName_def appendNull_def
      WriteByte_WriteString WriteString_WriteString same_families_refl
      split: if_splits
      dest!: typed_literal_families increment_index_families
      intro: same_families_trans same_families_WriteString)


lemma BeginChildren_families: "BeginChildren s c = Ok s' \<Longrightarrow> same_families s s'"
  by (auto simp: BeginChildren_def push_def WriteByte_def same_families_def split: if_splits)

lemma pop_families: "pop s = Ok s' \<Longrightarrow> same_families s s'"
  by (auto simp: pop_def same_families_def split: if_splits)

lemma EndChildren_families: "EndChildren s c = Ok s' \<Longrightarrow> same_families s s'"
  by (auto simp: EndChildren_def and_then_Ok_iff same_families_refl
      split: if_splits
      dest!: pop_families increment_index_families
      intro: same_families_trans same_families_WriteByte)

lemma visit_property_families:
  "\<forall>s'. visit_property ext s p = Ok s' \<longrightarrow> same_families s s'"
  and visit_children_families:
  "\<forall>s'. visit_children ext s ps = Ok s' \<longrightarrow> same_families s s'"
proof (induction ext s p and ext s ps rule: visit_property_visit_children.induct)
  case (1 ext s a r)
  show ?case
    by (auto simp: and_then_Ok_iff same_families_refl split: if_splits dest: Visit_families)
next
  case (2 ext s a children)
  show ?case
  proof (intro allI impI)
    fix s'
    assume v: "visit_property ext s (Complex a children) = Ok s'"
    show "same_families s s'"
    proof (cases "ShouldVisit ext s (Complex a children) = Ok True")
      case False
      then show ?thesis using v by (auto simp: and_then_Ok_iff same_families_refl split: if_splits)
    next
      case True
      then obtain s1 s2 s3 where
        a: "Visit ext s (Complex a children) = Ok s1"
        and b: "BeginChildren s1 (Complex a children) = Ok s2"
        and c: "visit_children ext s2 children = Ok s3"
        and d: "EndChildren s3 (Complex a children) = Ok s'"
        using v by (auto simp: and_then_Ok_iff)
      have "same_families s2 s3" using 2[OF True _ a b] c by simp
      then show ?thesis
        using Visit_families[OF a] BeginChildren_families[OF b] EndChildren_families[OF d]
        by (blast intro: same_families_trans)
    qed
  qed
next
  case (3 ext s a elems)
  show ?case
  proof (intro allI impI)
    fix s'
    assume v: "visit_property ext s (Multi a elems) = Ok s'"
    show "same_families s s'"
    proof (cases "ShouldVisit ext s (Multi a elems) = Ok True")
      case False
      then show ?thesis using v by (auto simp: and_then_Ok_iff same_families_refl split: if_splits)
    next
      case True
      then obtain s1 s2 s3 where
        a: "Visit ext s (Multi a elems) = Ok s1"
        and b: "BeginChildren s1 (Multi a elems) = Ok s2"
        and c: "visit_children ext s2 elems = Ok s3"
        and d: "EndChildren s3 (Multi a elems) = Ok s'"
        using v by (auto simp: and_then_Ok_iff)
      have "same_families s2 s3" using 3[OF True _ a b] c by simp
      then show ?thesis
        using Visit_families[OF a] BeginChildren_families[OF b] EndChildren_families[OF d]
        by (blast intro: same_families_trans)
    qed
  qed
next
  case (4 ext s)
  show ?case by (simp add: same_families_refl)
next
  case (5 ext s child rest)
  show ?case
  proof (intro allI impI)
    fix s'
    assume v: "visit_children ext s (child # rest) = Ok s'"
    then obtain s1 where a: "visit_property ext s child = Ok s1" and b: "visit_children ext s1 rest = Ok s'"
      by (auto simp: and_then_Ok_iff)
    show "same_families s s'" using 5(1) 5(2)[OF a] a b by (blast intro: same_families_trans)
  qed
qed


subsection \<open>The claims on the serializer\<close>

lemma Serialize_both:
  "included opts \<noteq> [] \<Longrightarrow> excluded opts \<noteq> [] \<Longrightarrow>
   Serialize ext r (Some opts) =
     Err (Error InvalidRequest ''only one of 'attributes' and 'excludedAttributes' may be used'')"
  by (simp add: Serialize_def)

lemma Serialize_neither:
  "included opts = [] \<Longrightarrow> excluded opts = [] \<Longrightarrow>
   Serialize ext r (Some opts) =
     (case Resource_Visit ext new_serializer r of
        Ok s' \<Rightarrow> Ok (buffer s')
      | Err err \<Rightarrow> Err (Error Internal ''JSON serialization error: %s'')
      | Panic p \<Rightarrow> Panic p)"
  by (simp add: Serialize_def and_then_Ok)

lemma Serialize_nil:
  "Serialize ext r None =
     (case Resource_Visit ext new_serializer r of
        Ok s' \<Rightarrow> Ok (buffer s')
      | Err err \<Rightarrow> Err (Error Internal ''JSON serialization error: %s'')
      | Panic p \<Rightarrow> Panic p)"
  by (simp add: Serialize_def Options_def and_then_Ok)

lemma Resource_Visit_families: "Resource_Visit ext s r = Ok s' \<Longrightarrow> same_families s s'"
proof -
  assume "Resource_Visit ext s r = Ok s'"
  then obtain s1 s2 where a: "BeginChildren s (data r) = Ok s1"
    and b: "visit_children ext s1 (children_of (data r)) = Ok s2"
    and c: "EndChildren s2 (data r) = Ok s'"
    by (auto simp: Resource_Visit_def and_then_Ok_iff)
  show ?thesis
    using BeginChildren_families[OF a] visit_children_families[of ext s1 "children_of (data r)"] b
      EndChildren_families[OF c]
    by (blast intro: same_families_trans)
qed

text \<open>
  C6. With both option lists non-empty \<open>Serialize\<close> returns an error of kind invalidRequest
  and no bytes. With both empty (or with nil options) it returns the outcome of the
  traversal started in a state with no family; in a state with no family \<open>ShouldVisit\<close>
  is the default returned-semantics, and every step of the traversal keeps the families
  as they are.
\<close>

theorem Serialize_options:
  "(included opts \<noteq> [] \<and> excluded opts \<noteq> [] \<longrightarrow>
      Serialize ext r (Some opts) =
        Err (Error InvalidRequest ''only one of 'attributes' and 'excludedAttributes' may be used'')
      \<and> kind (Error InvalidRequest ''only one of 'attributes' and 'excludedAttributes' may be used'')
          = InvalidRequest)
   \<and> (included opts = [] \<and> excluded opts = [] \<longrightarrow>
      Serialize ext r (Some opts) =
        (case Resource_Visit ext new_serializer r of
           Ok s' \<Rightarrow> Ok (buffer s')
         | Err err \<Rightarrow> Err (Error Internal ''JSON serialization error: %s'')
         | Panic p \<Rightarrow> Panic p))
   \<and> Serialize ext r None =
        (case Resource_Visit ext new_serializer r of
           Ok s' \<Rightarrow> Ok (buffer s')
         | Err err \<Rightarrow> Err (Error Internal ''JSON serialization error: %s'')
         | Panic p \<Rightarrow> Panic p)
   \<and> includeFamily new_serializer = None \<and> excludeFamily new_serializer = None
   \<and> (includeFamily s = None \<and> excludeFamily s = None \<longrightarrow>
        ShouldVisit ext s p = Ok (default_returned p))
   \<and> (Visit ext s p = Ok s' \<or> BeginChildren s p = Ok s' \<or> EndChildren s p = Ok s'
        \<or> visit_property ext s p = Ok s' \<or> visit_children ext s ps = Ok s'
        \<or> Resource_Visit ext s r = Ok s' \<longrightarrow>
        includeFamily s' = includeFamily s \<and> excludeFamily s' = excludeFamily s)"
proof -
  have f: "Visit ext s p = Ok s' \<or> BeginChildren s p = Ok s' \<or> EndChildren s p = Ok s'
        \<or> visit_property ext s p = Ok s' \<or> visit_children ext s ps = Ok s'
        \<or> Resource_Visit ext s r = Ok s' \<longrightarrow> same_families s s'"
    using Visit_families[of ext s p s'] BeginChildren_families[of s p s']
      EndChildren_families[of s p s'] visit_property_families[of ext s p]
      visit_children_families[of ext s ps] Resource_Visit_families[of ext s r s']
    by blast
  show ?thesis
    using Serialize_both[of opts ext r] Serialize_neither[of opts ext r] Serialize_nil[of ext r]
      ShouldVisit_no_family[of s ext p] f
    by (simp add: new_serializer_def same_families_def)
qed

lemma default_output:
  \<open>Serialize example_ext user_resource None =
     Ok (bytes ''{"schemas":["urn:User"],"id":"a1","userName":"bob","name":{"familyName":"Smith","givenName":"Bob"}}'')\<close>
  by code_simp

theorem Serialize_options_witness:
  \<open>included \<lparr>included = [''userName''], excluded = [''name'']\<rparr> \<noteq> []
   \<and> excluded \<lparr>included = [''userName''], excluded = [''name'']\<rparr> \<noteq> []
   \<and> Serialize example_ext user_resource (Some \<lparr>included = [''userName''], excluded = [''name'']\<rparr>)
       = Err (Error InvalidRequest ''only one of 'attributes' and 'excludedAttributes' may be used'')
   \<and> included Options = [] \<and> excluded Options = []
   \<and> Serialize example_ext user_resource (Some Options) =
       Ok (bytes ''{"schemas":["urn:User"],"id":"a1","userName":"bob","name":{"familyName":"Smith","givenName":"Bob"}}'')
   \<and> includeFamily new_serializer = None \<and> excludeFamily new_serializer = None
   \<and> ShouldVisit example_ext new_serializer userName_property = Ok True
   \<and> ShouldVisit example_ext new_serializer (id_property None) = Ok True
   \<and> ShouldVisit example_ext new_serializer password_property = Ok False
   \<and> Visit example_ext in_object userName_property
       = Ok (in_object\<lparr>buffer := bytes ''"userName":"bob"'',
                        stack := [\<lparr>container = containerObject, index = 1\<rparr>]\<rparr>)
   \<and> includeFamily (in_object\<lparr>buffer := bytes ''"userName":"bob"'',
                        stack := [\<lparr>container = containerObject, index = 1\<rparr>]\<rparr>) = None\<close>
proof -
  have v: \<open>Visit example_ext in_object userName_property
       = Ok (in_object\<lparr>buffer := bytes ''"userName":"bob"'',
                        stack := [\<lparr>container = containerObject, index = 1\<rparr>]\<rparr>)\<close>
    by code_simp
  have d: "default_returned userName_property" "default_returned (id_property None)"
    "\<not> default_returned password_property"
    by (simp_all add: default_returned_def userName_property_def id_property_def
        password_property_def mk_attribute_def)
  show ?thesis
    using Serialize_options[of "\<lparr>included = [''userName''], excluded = [''name'']\<rparr>"
        example_ext user_resource new_serializer userName_property
        "in_object\<lparr>buffer := bytes ''\"userName\":\"bob\"'',
                        stack := [\<lparr>container = containerObject, index = 1\<rparr>]\<rparr>" "[]"]
      Serialize_options[of Options example_ext user_resource new_serializer "id_property None"
        "new_serializer" "[]"]
      Serialize_options[of Options example_ext user_resource new_serializer password_property
        "new_serializer" "[]"]
      Serialize_options[of Options example_ext user_resource in_object userName_property
        "in_object\<lparr>buffer := bytes ''\"userName\":\"bob\"'',
                        stack := [\<lparr>container = containerObject, index = 1\<rparr>]\<rparr>" "[]"]
      default_output v d
    by (simp add: Options_def new_serializer_def in_object_def)
qed

text \<open>
  C7. For a property whose attribute is write-only, whatever its returned disposition and
  whatever families the serializer holds, \<open>ShouldVisit\<close> is false; the traversal of the
  property leaves the serializer as it is (nothing is written for it or below it), and a
  list of children is traversed as if the property were not in it.
\<close>

theorem writeOnly_never_written:
  "Mutability (Attribute p) = MutabilityWriteOnly \<longrightarrow>
     ShouldVisit ext s p = Ok False
     \<and> visit_property ext s p = Ok s
     \<and> visit_children ext s (xs @ p # ys) = visit_children ext s (xs @ ys)"
  using ShouldVisit_writeOnly[of p ext s] visit_property_writeOnly[of p ext s]
    visit_children_writeOnly[of p ext s xs ys]
  by blast

lemma included_password_output:
  \<open>Serialize example_ext user_resource (Some \<lparr>included = [''password''], excluded = []\<rparr>)
     = Ok (bytes ''{"schemas":["urn:User"],"id":"a1"}'')\<close>
  by code_simp

theorem writeOnly_never_written_witness:
  \<open>Mutability (Attribute secret_property) = MutabilityWriteOnly
   \<and> Returned (Attribute secret_property) = ReturnedAlways
   \<and> ShouldVisit example_ext (new_serializer\<lparr>includeFamily := Some [[''secret'']]\<rparr>) secret_property
       = Ok False
   \<and> visit_property example_ext in_object secret_property = Ok in_object
   \<and> visit_children example_ext in_object ([] @ secret_property # [userName_property])
       = visit_children example_ext in_object ([] @ [userName_property])
   \<and> Mutability (Attribute password_property) = MutabilityWriteOnly
   \<and> ShouldVisit example_ext (new_serializer\<lparr>includeFamily := Some [[''password'']]\<rparr>) password_property
       = Ok False
   \<and> Serialize example_ext user_resource (Some \<lparr>included = [''password''], excluded = []\<rparr>)
       = Ok (bytes ''{"schemas":["urn:User"],"id":"a1"}'')\<close>
proof -
  have m: "Mutability (Attribute secret_property) = MutabilityWriteOnly"
    "Returned (Attribute secret_property) = ReturnedAlways"
    "Mutability (Attribute password_property) = MutabilityWriteOnly"
    by (simp_all add: secret_property_def password_property_def mk_attribute_def)
  show ?thesis
    using writeOnly_never_written[of secret_property example_ext
        "new_serializer\<lparr>includeFamily := Some [[''secret'']]\<rparr>" "[]" "[userName_property]"]
      writeOnly_never_written[of secret_property example_ext in_object "[]" "[userName_property]"]
      writeOnly_never_written[of password_property example_ext
        "new_serializer\<lparr>includeFamily := Some [[''password'']]\<rparr>" "[]" "[]"]
      m included_password_output
    by (simp add: and_then_Ok)
qed

text \<open>
  C1 fails on the code. With an exclude family, \<open>ShouldVisit\<close> of a readable property
  returned by default is true exactly when its path is a member or an offspring of the
  family: the negation is missing. With \<open>excluded = ["name"]\<close> the property \<open>name\<close> is
  visited and \<open>userName\<close> is not, and the output holds \<open>name\<close> and lacks \<open>userName\<close>.
\<close>

theorem ShouldVisit_exclude_not_negated:
  \<open>ShouldVisit ext (s\<lparr>includeFamily := None, excludeFamily := Some family\<rparr>)
     (Leaf (mk_attribute n i t mv MutabilityReadWrite ReturnedDefault) r)
     = Ok (IsMember family (MustPath ext i) \<or> IsOffspring family (MustPath ext i))
   \<and> ShouldVisit example_ext excluding_name name_property = Ok True
   \<and> IsMember [[''name'']] (MustPath example_ext (ID (Attribute name_property)))
   \<and> ShouldVisit example_ext excluding_name userName_property = Ok False
   \<and> Serialize example_ext user_resource (Some \<lparr>included = [], excluded = [''name'']\<rparr>)
       = Ok (bytes ''{"schemas":["urn:User"],"id":"a1","name":{"familyName":"Smith","givenName":"Bob"}}'')\<close>
proof -
  have a: "ShouldVisit ext (s\<lparr>includeFamily := None, excludeFamily := Some family\<rparr>)
     (Leaf (mk_attribute n i t mv MutabilityReadWrite ReturnedDefault) r)
     = Ok (IsMember family (MustPath ext i) \<or> IsOffspring family (MustPath ext i))"
    by (simp add: ShouldVisit_def mk_attribute_def Let_def)
  have b: "ShouldVisit example_ext excluding_name name_property = Ok True"
    "IsMember [[''name'']] (MustPath example_ext (ID (Attribute name_property)))"
    "ShouldVisit example_ext excluding_name userName_property = Ok False"
    by code_simp+
  have c: \<open>Serialize example_ext user_resource (Some \<lparr>included = [], excluded = [''name'']\<rparr>)
       = Ok (bytes ''{"schemas":["urn:User"],"id":"a1","name":{"familyName":"Smith","givenName":"Bob"}}'')\<close>
    by code_simp
  show ?thesis using a b c by blast
qed

subsection \<open>The index of the enclosing frame\<close>

lemma typed_literal_stack: "typed_literal ext s t r = Ok s' \<Longrightarrow> stack s' = stack s"
  by (auto simp: typed_literal_def appendString_escaped appendInteger_def appendFloat_def Let_def
      appendBoolean_def WriteString_def
      split: if_splits option.splits raw.splits)

lemma increment_index_stack:
  "increment_index s = Ok s' \<Longrightarrow>
   stack s' = (stack s)[length (stack s) - 1 :=
                 (stack s ! (length (stack s) - 1))
                   \<lparr>index := index (stack s ! (length (stack s) - 1)) + 1\<rparr>]"
  by (auto simp: increment_index_def current_def split: if_splits)

lemma Visit_assigned_leaf_stack:
  assumes "Visit ext s (Leaf a (Some r)) = Ok s'"
  shows "stack s' = (stack s)[length (stack s) - 1 :=
                 (stack s ! (length (stack s) - 1))
                   \<lparr>index := index (stack s ! (length (stack s) - 1)) + 1\<rparr>]"
proof -
  obtain f where f: "current s = Ok f"
    using assms by (auto simp: Visit_def and_then_Ok_iff)
  let ?s1 = "if index f > 0 then WriteByte s 0x2C else s"
  let ?s2 = "if container f \<noteq> containerArray then appendPropertyName ?s1 a else ?s1"
  have st: "stack ?s2 = stack s"
    by (simp add: appendPropertyName_def WriteByte_def WriteString_def)
  have "and_then (typed_literal ext ?s2 (Type a) (Some r)) increment_index = Ok s'"
    using assms f by (auto simp: Visit_def and_then_Ok Let_def split: if_splits)
  then obtain t where t: "typed_literal ext ?s2 (Type a) (Some r) = Ok t"
    and i: "increment_index t = Ok s'"
    by (auto simp: and_then_Ok_iff)
  have "stack t = stack s" using typed_literal_stack[OF t] st by simp
  then show ?thesis using increment_index_stack[OF i] by simp
qed

lemma EndChildren_stack:
  assumes "EndChildren s c = Ok s'" and "stack s = frames @ [parent, upper]"
  shows "stack s' = frames @ [parent\<lparr>index := index parent + 1\<rparr>]"
  using assms
  by (auto simp: EndChildren_def and_then_Ok_iff pop_def increment_index_def current_def
      WriteByte_def nth_append split: if_splits)

lemma Visit_unassigned_leaf_stack:
  "Visit ext s (Leaf a None) = Ok s' \<Longrightarrow> stack s' = stack s"
  by (auto simp: Visit_def and_then_Ok_iff Let_def appendNull_def appendPropertyName_def
      WriteByte_def WriteString_def split: if_splits)

text \<open>
  C2 fails on the code. \<open>Visit\<close> of an unassigned leaf writes \<open>null\<close> and returns before
  the index of the frame is incremented; \<open>Visit\<close> of an assigned leaf increments it, and so
  does \<open>EndChildren\<close> for the frame below (the three lemmas above). So when the first value
  written in a container is a \<open>null\<close>, no comma is written before the next one: here in an
  object frame with index 0, and in the resource whose children are an unassigned \<open>id\<close> and
  \<open>userName\<close>.
\<close>

theorem Visit_null_keeps_index:
  \<open>Visit example_ext in_object (id_property None)
     = Ok (in_object\<lparr>buffer := bytes ''"id":null'',
                      stack := [\<lparr>container = containerObject, index = 0\<rparr>]\<rparr>)
   \<and> Visit example_ext in_object userName_property
     = Ok (in_object\<lparr>buffer := bytes ''"userName":"bob"'',
                      stack := [\<lparr>container = containerObject, index = 1\<rparr>]\<rparr>)
   \<and> Serialize example_ext (resource_of [id_property None, userName_property]) None
     = Ok (bytes ''{"id":null"userName":"bob"}'')\<close>
proof -
  have a: \<open>Visit example_ext in_object (id_property None)
     = Ok (in_object\<lparr>buffer := bytes ''"id":null'',
                      stack := [\<lparr>container = containerObject, index = 0\<rparr>]\<rparr>)\<close>
    by code_simp
  have b: \<open>Visit example_ext in_object userName_property
     = Ok (in_object\<lparr>buffer := bytes ''"userName":"bob"'',
                      stack := [\<lparr>container = containerObject, index = 1\<rparr>]\<rparr>)\<close>
    by code_simp
  have c: \<open>Serialize example_ext (resource_of [id_property None, userName_property]) None
     = Ok (bytes ''{"id":null"userName":"bob"}'')\<close>
    by code_simp
  show ?thesis using a b c by blast
qed


end
